theory Spec2Isabelle
  imports Main
begin

section \<open>Data model\<close>

text \<open>
  A parsed JSON request body (the value \<open>request.json()\<close> resolves to). Objects are
  association lists; a lookup takes the binding \<open>map_of\<close> finds. The payload of a number
  is never inspected by the schemas below.
\<close>

datatype json =
    JNull
  | JBool bool
  | JNum int
  | JStr string
  | JArr "json list"
  | JObj "(string \<times> json) list"

text \<open>The closed status enumeration of \<open>src/lib/zod.ts\<close>.\<close>

datatype task_status = Todo | InProgress | Done | Archived

text \<open>The \<open>Task\<close> type of \<open>src/lib/zod.ts\<close>; instants are milliseconds since the epoch.\<close>

record task =
  task_id :: string
  user_id :: string
  title :: string
  description :: "string option"
  status :: task_status
  due_date :: "string option"
  created_at :: int
  updated_at :: int

section \<open>CORS header policy (\<open>src/lib/csp.ts\<close>)\<close>

text \<open>JavaScript's \<open>String.prototype.split\<close> with a one-character separator.\<close>

fun split_on :: "char \<Rightarrow> string \<Rightarrow> string list" where
  "split_on c [] = [[]]"
| "split_on c (x # xs) =
     (if x = c then [] # split_on c xs
      else (case split_on c xs of
              [] \<Rightarrow> [[x]]
            | w # ws \<Rightarrow> (x # w) # ws))"

text \<open>
  \<open>process.env.CORS_ORIGINS?.split(',') || ['http://localhost:3000']\<close>: an array is always
  truthy, so the default applies only when the variable is unset.
\<close>

definition allowedOrigins :: "string option \<Rightarrow> string list" where
  "allowedOrigins cors_origins =
     (case cors_origins of
        None \<Rightarrow> [''http://localhost:3000'']
      | Some s \<Rightarrow> split_on CHR '','' s)"

text \<open>
  \<open>getCORSHeaders(origin?)\<close>. The header object is a map from names to values. The second
  branch is guarded by \<open>origin && ...\<close>: the empty string is falsy.
\<close>

definition getCORSHeaders :: "string option \<Rightarrow> string option \<Rightarrow> (string \<rightharpoonup> string)" where
  "getCORSHeaders cors_origins origin =
     (let headers = [''Access-Control-Allow-Methods'' \<mapsto> ''GET, POST, PUT, DELETE, OPTIONS'',
                     ''Access-Control-Allow-Headers'' \<mapsto> ''Content-Type, Authorization, X-Requested-With'',
                     ''Access-Control-Max-Age'' \<mapsto> ''86400'']
      in if origin = Some ''null'' then
           headers(''Access-Control-Allow-Origin'' \<mapsto> ''null'',
                   ''Access-Control-Allow-Credentials'' \<mapsto> ''true'')
         else (case origin of
                 None \<Rightarrow> headers
               | Some ori \<Rightarrow>
                   if ori \<noteq> [] \<and> ori \<in> set (allowedOrigins cors_origins) then
                     headers(''Access-Control-Allow-Origin'' \<mapsto> ori,
                             ''Access-Control-Allow-Credentials'' \<mapsto> ''true'')
                   else headers))"

section \<open>Request validation (\<open>src/lib/zod.ts\<close>)\<close>

text \<open>
  The issues \<open>safeParse\<close> reports: a code, the path of the offending field, and for
  \<open>unrecognized_keys\<close> the offending keys.
\<close>

datatype issue_code =
  invalid_type | too_small | too_big | invalid_enum_value | invalid_union | unrecognized_keys

record zod_issue =
  code :: issue_code
  path :: "string list"
  keys :: "string list"

definition issue :: "issue_code \<Rightarrow> string \<Rightarrow> zod_issue" where
  "issue c field = \<lparr>code = c, path = [field], keys = []\<rparr>"

text \<open>The value \<open>TaskCreateSchema\<close> produces for a valid body.\<close>

record task_create =
  tc_title :: string
  tc_description :: "string option"
  tc_status :: task_status
  tc_due_date :: "string option"

text \<open>The value \<open>TaskUpdateSchema\<close> produces: every field may be absent.\<close>

record task_update =
  tu_title :: "string option"
  tu_description :: "string option"
  tu_status :: "task_status option"
  tu_due_date :: "string option"

text \<open>
  \<open>z.string().min(1).max(120)\<close>: a required string; \<open>length\<close> is JavaScript's
  \<open>.length\<close> (a count of code units).
\<close>

definition parse_title :: "json option \<Rightarrow> zod_issue list + string" where
  "parse_title v =
     (case v of
        Some (JStr s) \<Rightarrow>
          (if length s < 1 then Inl [issue too_small ''title'']
           else if length s > 120 then Inl [issue too_big ''title'']
           else Inr s)
      | _ \<Rightarrow> Inl [issue invalid_type ''title''])"

text \<open>\<open>z.string().max(2000).optional()\<close>: \<open>undefined\<close> (an absent key) passes.\<close>

definition parse_description :: "json option \<Rightarrow> zod_issue list + string option" where
  "parse_description v =
     (case v of
        None \<Rightarrow> Inr None
      | Some (JStr s) \<Rightarrow>
          (if length s > 2000 then Inl [issue too_big ''description''] else Inr (Some s))
      | Some _ \<Rightarrow> Inl [issue invalid_type ''description''])"

definition status_of_string :: "string \<Rightarrow> task_status option" where
  "status_of_string s =
     (if s = ''todo'' then Some Todo
      else if s = ''in_progress'' then Some InProgress
      else if s = ''done'' then Some Done
      else if s = ''archived'' then Some Archived
      else None)"

text \<open>
  \<open>z.enum(["todo", "in_progress", "done", "archived"])\<close>, with no \<open>.optional()\<close>: an
  absent key is an \<open>invalid_type\<close> issue ("Required").
\<close>

definition parse_status :: "json option \<Rightarrow> zod_issue list + task_status" where
  "parse_status v =
     (case v of
        Some (JStr s) \<Rightarrow>
          (case status_of_string s of
             Some st \<Rightarrow> Inr st
           | None \<Rightarrow> Inl [issue invalid_enum_value ''status''])
      | _ \<Rightarrow> Inl [issue invalid_type ''status''])"

text \<open>
  \<open>z.union([z.string(), z.date()]).optional().transform(...)\<close>. A JSON body holds no
  \<open>Date\<close>, so only a string passes the union; the transform maps a falsy value (the empty
  string) to \<open>undefined\<close> and any other string \<open>s\<close> to \<open>new Date(s)\<close>. The value kept
  here is the text \<open>s\<close> handed to \<open>new Date\<close>; whether it denotes a valid date, and how an
  invalid one is serialised, is not modelled.
\<close>

definition parse_due_date :: "json option \<Rightarrow> zod_issue list + string option" where
  "parse_due_date v =
     (case v of
        None \<Rightarrow> Inr None
      | Some (JStr s) \<Rightarrow> Inr (if s = [] then None else Some s)
      | Some _ \<Rightarrow> Inl [issue invalid_union ''due_date''])"

definition shape_keys :: "string list" where
  "shape_keys = [''title'', ''description'', ''status'', ''due_date'']"

text \<open>\<open>.strict()\<close>: keys outside the shape are one \<open>unrecognized_keys\<close> issue.\<close>

definition strict_issues :: "string list \<Rightarrow> zod_issue list" where
  "strict_issues ks =
     (let extra = filter (\<lambda>k. k \<notin> set shape_keys) ks
      in if extra = [] then [] else [\<lparr>code = unrecognized_keys, path = [], keys = extra\<rparr>])"

fun issues_of :: "zod_issue list + 'a \<Rightarrow> zod_issue list" where
  "issues_of (Inl is) = is"
| "issues_of (Inr _) = []"

text \<open>\<open>TaskCreateSchema.safeParse(body)\<close>: \<open>Inl\<close> carries \<open>error.issues\<close>, \<open>Inr\<close> the data.\<close>

definition TaskCreateSchema :: "json \<Rightarrow> zod_issue list + task_create" where
  "TaskCreateSchema body =
     (case body of
        JObj kvs \<Rightarrow>
          (let m = map_of kvs;
               t = parse_title (m ''title'');
               d = parse_description (m ''description'');
               s = parse_status (m ''status'');
               dd = parse_due_date (m ''due_date'');
               extra = strict_issues (map fst kvs)
           in (case (t, d, s, dd, extra) of
                 (Inr t', Inr d', Inr s', Inr dd', []) \<Rightarrow>
                   Inr \<lparr>tc_title = t', tc_description = d', tc_status = s', tc_due_date = dd'\<rparr>
               | _ \<Rightarrow> Inl (issues_of t @ issues_of d @ issues_of s @ issues_of dd @ extra)))
      | _ \<Rightarrow> Inl [\<lparr>code = invalid_type, path = [], keys = []\<rparr>])"

text \<open>\<open>.partial()\<close> wraps every field schema in \<open>optional\<close>: an absent key passes.\<close>

definition optional_field :: "(json option \<Rightarrow> zod_issue list + 'a) \<Rightarrow> json option
    \<Rightarrow> zod_issue list + 'a option" where
  "optional_field p v =
     (case v of
        None \<Rightarrow> Inr None
      | Some x \<Rightarrow> (case p (Some x) of Inl is \<Rightarrow> Inl is | Inr a \<Rightarrow> Inr (Some a)))"

text \<open>\<open>TaskUpdateSchema = TaskCreateSchema.partial().strict()\<close>.\<close>

definition TaskUpdateSchema :: "json \<Rightarrow> zod_issue list + task_update" where
  "TaskUpdateSchema body =
     (case body of
        JObj kvs \<Rightarrow>
          (let m = map_of kvs;
               t = optional_field parse_title (m ''title'');
               d = parse_description (m ''description'');
               s = optional_field parse_status (m ''status'');
               dd = parse_due_date (m ''due_date'');
               extra = strict_issues (map fst kvs)
           in (case (t, d, s, dd, extra) of
                 (Inr t', Inr d', Inr s', Inr dd', []) \<Rightarrow>
                   Inr \<lparr>tu_title = t', tu_description = d', tu_status = s', tu_due_date = dd'\<rparr>
               | _ \<Rightarrow> Inl (issues_of t @ issues_of d @ issues_of s @ issues_of dd @ extra)))
      | _ \<Rightarrow> Inl [\<lparr>code = invalid_type, path = [], keys = []\<rparr>])"

section \<open>Process state and output\<close>

text \<open>
  What a handler writes to the console, directly (\<open>console.log/warn/error\<close>) or through
  the structured logger (\<open>logger.debug/info/warn/error\<close>, which records the level).
\<close>

datatype console_method = console_log | console_warn | console_error

datatype log_level = DEBUG | INFO | WARN | ERROR

datatype output_line = Console console_method string | Logged log_level string

text \<open>A cached value: the snapshot of one task or of a task collection.\<close>

datatype cached = CTask task | CTasks "task list"

text \<open>The calls a handler makes on its external collaborators, in the order made.\<close>

datatype db_op = Select | Insert | Update | Delete

datatype event =
    AuthGetUser
  | RateLimitCheck string string
  | CacheGet string
  | CacheSet string
  | CacheInvalidate string
  | DbCall db_op bool

text \<open>
  The state a request runs against: the \<open>tasks\<close> table, the key-value store behind the
  cache (key and value pairs, one per key), the collaborator calls made so far and the
  lines written so far.
\<close>

record world =
  db :: "task list"
  redis :: "(string \<times> cached) list"
  trace :: "event list"
  out :: "output_line list"

definition call :: "event \<Rightarrow> world \<Rightarrow> world" where
  "call e w = w\<lparr>trace := trace w @ [e]\<rparr>"

definition say :: "output_line \<Rightarrow> world \<Rightarrow> world" where
  "say l w = w\<lparr>out := out w @ [l]\<rparr>"

section \<open>Cache service (\<open>CacheService\<close>)\<close>

text \<open>
  Modelled from the spec: the key-value store is an external service (``supporting
  get/set-with-expiry/delete'' and a ``pattern scan over keys''); its server is not part
  of the sources. A pattern is matched as a glob in which \<open>*\<close> stands for any run of
  characters and \<open>?\<close> for any one character; every other character stands for itself.
  Expiry of entries is not modelled.
\<close>

fun glob :: "string \<Rightarrow> string \<Rightarrow> bool" where
  "glob [] s = (s = [])"
| "glob (p # ps) [] = (p = CHR ''*'' \<and> glob ps [])"
| "glob (p # ps) (c # t) =
     (if p = CHR ''*'' then glob ps (c # t) \<or> glob (p # ps) t
      else (p = CHR ''?'' \<or> p = c) \<and> glob ps t)"

text \<open>
  Modelled from the spec: the store's commands \<open>KEYS pattern\<close>, \<open>DEL key ...\<close> and
  \<open>SETEX key ttl value\<close>, on a store held as a list of entries with one entry per key.
\<close>

definition redis_keys :: "string \<Rightarrow> (string \<times> cached) list \<Rightarrow> string list" where
  "redis_keys pattern store = filter (glob pattern) (map fst store)"

definition redis_del :: "string list \<Rightarrow> (string \<times> cached) list \<Rightarrow> (string \<times> cached) list" where
  "redis_del ks store = filter (\<lambda>(k, v). k \<notin> set ks) store"

definition redis_setex :: "string \<Rightarrow> cached \<Rightarrow> (string \<times> cached) list \<Rightarrow> (string \<times> cached) list" where
  "redis_setex key v store = (key, v) # filter (\<lambda>(k, v). k \<noteq> key) store"

text \<open>
  The methods of \<open>CacheService\<close>. \<open>fault\<close> says that the store's calls throw during this
  request; every method catches the error and writes it with \<open>console.error\<close>.
\<close>

definition CacheService_get :: "bool \<Rightarrow> string \<Rightarrow> world \<Rightarrow> cached option \<times> world" where
  "CacheService_get fault key w =
     (if fault then (None, say (Console console_error ''Cache get error:'') w)
      else (map_of (redis w) key, w))"

definition CacheService_set :: "bool \<Rightarrow> string \<Rightarrow> cached \<Rightarrow> world \<Rightarrow> world" where
  "CacheService_set fault key v w =
     (if fault then say (Console console_error ''Cache set error:'') w
      else w\<lparr>redis := redis_setex key v (redis w)\<rparr>)"

definition invalidatePattern :: "bool \<Rightarrow> string \<Rightarrow> world \<Rightarrow> world" where
  "invalidatePattern fault pattern w =
     (if fault then say (Console console_error ''Cache invalidate pattern error:'') w
      else (let ks = redis_keys pattern (redis w)
            in if length ks > 0 then w\<lparr>redis := redis_del ks (redis w)\<rparr> else w))"

definition getUserTasksKey :: "string \<Rightarrow> string" where
  "getUserTasksKey userId = ''tasks:'' @ userId"

definition getUserTaskKey :: "string \<Rightarrow> string \<Rightarrow> string" where
  "getUserTaskKey userId taskId = ''task:'' @ userId @ '':'' @ taskId"

definition invalidateUserCache :: "bool \<Rightarrow> string \<Rightarrow> world \<Rightarrow> world" where
  "invalidateUserCache fault userId w = invalidatePattern fault (''*:'' @ userId @ ''*'') w"

text \<open>
  Identifiers without a character that a store's pattern syntax may read as a
  metacharacter; the UUIDs the identity provider issues are such.
\<close>

definition plain :: "string \<Rightarrow> bool" where
  "plain s = list_all (\<lambda>c. c \<notin> set ''*?[]'' \<and> c \<noteq> CHR 0x5C) s"

text \<open>\<open>contains sub s\<close>: \<open>sub\<close> occurs in \<open>s\<close> as a contiguous substring.\<close>

fun is_prefix :: "string \<Rightarrow> string \<Rightarrow> bool" where
  "is_prefix [] s = True"
| "is_prefix (a # as) [] = False"
| "is_prefix (a # as) (c # s) = (a = c \<and> is_prefix as s)"

fun contains :: "string \<Rightarrow> string \<Rightarrow> bool" where
  "contains sub [] = (sub = [])"
| "contains sub (c # s) = (is_prefix sub (c # s) \<or> contains sub s)"

section \<open>Rate limiter\<close>

record RateLimitResult =
  success :: bool
  limit :: int
  remaining :: int
  reset :: int
  retryAfter :: "int option"

text \<open>
  A limiter as configured by \<open>new Ratelimit({limiter: Ratelimit.slidingWindow(n, "60 s"),
  prefix: ...})\<close>: the cap, the window in milliseconds and the key prefix.
\<close>

record limiter =
  tokens :: nat
  window_ms :: int
  prefix :: string

definition readLimiter :: limiter where
  "readLimiter = \<lparr>tokens = 60, window_ms = 60000, prefix = ''rl:read''\<rparr>"

definition writeLimiter :: limiter where
  "writeLimiter = \<lparr>tokens = 20, window_ms = 60000, prefix = ''rl:write''\<rparr>"

definition authLimiter :: limiter where
  "authLimiter = \<lparr>tokens = 10, window_ms = 60000, prefix = ''rl:auth''\<rparr>"

text \<open>What \<open>limiter.limit(identifier)\<close> resolves to.\<close>

record limit_response =
  lr_success :: bool
  lr_limit :: int
  lr_remaining :: int
  lr_reset :: int

text \<open>
  The limiter's side of the state: per store key the instants of the admitted requests,
  and the console.
\<close>

record limiter_state =
  hits :: "string \<Rightarrow> int list"
  console :: "output_line list"

fun earliest :: "int \<Rightarrow> int list \<Rightarrow> int" where
  "earliest d [] = d"
| "earliest d (t # ts) = min t (earliest d ts)"

text \<open>
  Modelled from the spec: the sliding-window decision is made by the rate-limiting
  library and its store, which are not part of the sources. ``Within any trailing
  60-second interval ending now, at most N requests for that key may succeed, where N is
  the limiter kind's configured cap; the (N+1)th request in that interval fails''. The
  requests counted are those admitted in the trailing window; the window of a key ends
  when the earliest of them leaves it, which is the reset instant reported.
\<close>

definition sliding_window_limit :: "limiter \<Rightarrow> string \<Rightarrow> int \<Rightarrow> (string \<Rightarrow> int list)
    \<Rightarrow> limit_response \<times> (string \<Rightarrow> int list)" where
  "sliding_window_limit lim identifier now store =
     (let k = prefix lim @ '':'' @ identifier;
          recent = filter (\<lambda>t. now - window_ms lim < t) (store k)
      in if length recent < tokens lim then
           (\<lparr>lr_success = True, lr_limit = int (tokens lim),
             lr_remaining = int (tokens lim) - int (length recent) - 1,
             lr_reset = earliest now recent + window_ms lim\<rparr>,
            store(k := now # recent))
         else
           (\<lparr>lr_success = False, lr_limit = int (tokens lim), lr_remaining = 0,
             lr_reset = earliest now recent + window_ms lim\<rparr>,
            store(k := recent)))"

text \<open>\<open>Math.ceil(a / b)\<close> on integers, for a positive \<open>b\<close>.\<close>

definition ceil_div :: "int \<Rightarrow> int \<Rightarrow> int" where
  "ceil_div a b = - ((- a) div b)"

text \<open>
  \<open>checkRateLimit(limiter, identifier)\<close>, the definition that calls the limiter. \<open>fault\<close>
  says that the call on the store throws; \<open>now\<close> is the clock, read as one instant by the
  store and by \<open>Date.now()\<close>.
\<close>

definition checkRateLimit :: "bool \<Rightarrow> limiter \<Rightarrow> string \<Rightarrow> int \<Rightarrow> limiter_state
    \<Rightarrow> RateLimitResult \<times> limiter_state" where
  "checkRateLimit fault lim identifier now s =
     (if fault then
        (\<lparr>success = True, limit = 60, remaining = 59, reset = now + 60000, retryAfter = None\<rparr>,
         s\<lparr>console := console s @ [Console console_error ''Rate limit check error:'']\<rparr>)
      else
        (let (result, store') = sliding_window_limit lim identifier now (hits s)
         in (\<lparr>success = lr_success result, limit = lr_limit result,
              remaining = lr_remaining result, reset = lr_reset result,
              retryAfter = (if lr_success result then None
                            else Some (ceil_div (lr_reset result - now) 1000))\<rparr>,
             s\<lparr>hits := store'\<rparr>)))"

text \<open>
  \<open>checkRateLimit(limiter, identifier)\<close>, the definition commented ``Temporarily bypass
  rate limiting for debugging'': the limiter is not consulted.
\<close>

definition checkRateLimit_bypass :: "limiter \<Rightarrow> string \<Rightarrow> int \<Rightarrow> limiter_state
    \<Rightarrow> RateLimitResult \<times> limiter_state" where
  "checkRateLimit_bypass lim identifier now s =
     (\<lparr>success = True, limit = 60, remaining = 59, reset = now + 60000, retryAfter = None\<rparr>,
      s\<lparr>console := console s @ [Console console_log ''Rate limit bypassed for:'']\<rparr>)"

text \<open>\<open>createRateLimitKey(userId, ip)\<close>: an empty user id is falsy.\<close>

definition createRateLimitKey :: "string option \<Rightarrow> string \<Rightarrow> string" where
  "createRateLimitKey userId ip =
     (case userId of
        None \<Rightarrow> ip
      | Some u \<Rightarrow> if u \<noteq> [] then u @ '':'' @ ip else ip)"

text \<open>A sequence of checks, one per instant of the list, each on the state the last left.\<close>

fun run_checks :: "(int \<Rightarrow> limiter_state \<Rightarrow> RateLimitResult \<times> limiter_state) \<Rightarrow> int list
    \<Rightarrow> limiter_state \<Rightarrow> RateLimitResult list \<times> limiter_state" where
  "run_checks chk [] s = ([], s)"
| "run_checks chk (t # ts) s =
     (let (r, s') = chk t s;
          (rs, s'') = run_checks chk ts s'
      in (r # rs, s''))"

definition is_warning :: "output_line \<Rightarrow> bool" where
  "is_warning l = (case l of Console m _ \<Rightarrow> m = console_warn | Logged lv _ \<Rightarrow> lv = WARN)"

section \<open>Persistence\<close>

datatype db_error = PGRST116 | Failure string

text \<open>
  Modelled from the spec: the persistent store and its access control are an external
  collaborator (``a relational database exposing row-level authorization so that a query
  only returns/affects rows owned by the caller''); the schema and its policies are not
  part of the sources. A query made with a user's session sees the rows of that user
  only; \<open>.single()\<close> fails with \<open>PGRST116\<close> unless exactly one row results; \<open>updated_at\<close>
  is ``refreshed on every mutation''; an insert is checked against the caller's identity.
  \<open>fault\<close> is an error of the store itself, such as an unreachable server.
\<close>

text \<open>
  Modelled from the spec: the row filter of a query \<open>.eq('id', id)\<close> made with the session
  of user \<open>uid\<close>, under row-level authorization.
\<close>

definition own :: "string \<Rightarrow> string \<Rightarrow> task \<Rightarrow> bool" where
  "own uid tid t = (user_id t = uid \<and> task_id t = tid)"

text \<open>Modelled from the spec: the store's \<open>.single()\<close> on the rows a query results in.\<close>

definition single :: "task list \<Rightarrow> db_error + task" where
  "single rows = (case rows of [t] \<Rightarrow> Inr t | _ \<Rightarrow> Inl PGRST116)"

text \<open>
  Modelled from the spec: \<open>from('tasks').select('*').eq('id', id).single()\<close> as the store
  serves it.
\<close>

definition db_select_single :: "string option \<Rightarrow> string \<Rightarrow> string \<Rightarrow> task list \<Rightarrow> db_error + task" where
  "db_select_single fault uid tid tasks =
     (case fault of
        Some m \<Rightarrow> Inl (Failure m)
      | None \<Rightarrow> single (filter (own uid tid) tasks))"

text \<open>
  Modelled from the spec: the store's update of one row with the fields present in the
  validated data; absent fields keep their value.
\<close>

definition apply_update :: "task_update \<Rightarrow> int \<Rightarrow> task \<Rightarrow> task" where
  "apply_update u now t =
     t\<lparr>title := (case tu_title u of Some x \<Rightarrow> x | None \<Rightarrow> title t),
       description := (case tu_description u of Some x \<Rightarrow> Some x | None \<Rightarrow> description t),
       status := (case tu_status u of Some x \<Rightarrow> x | None \<Rightarrow> status t),
       due_date := (case tu_due_date u of Some x \<Rightarrow> Some x | None \<Rightarrow> due_date t),
       updated_at := now\<rparr>"

text \<open>
  Modelled from the spec: \<open>from('tasks').update(data).eq('id', id).select().single()\<close> as
  the store serves it.
\<close>

definition db_update_single :: "string option \<Rightarrow> string \<Rightarrow> string \<Rightarrow> task_update \<Rightarrow> int
    \<Rightarrow> task list \<Rightarrow> (db_error + task) \<times> task list" where
  "db_update_single fault uid tid u now tasks =
     (case fault of
        Some m \<Rightarrow> (Inl (Failure m), tasks)
      | None \<Rightarrow>
          (let tasks' = map (\<lambda>t. if own uid tid t then apply_update u now t else t) tasks
           in (single (filter (own uid tid) tasks'), tasks')))"

text \<open>
  Modelled from the spec: \<open>from('tasks').delete().eq('id', id)\<close> as the store serves it;
  removing no row is not an error.
\<close>

definition db_delete :: "string option \<Rightarrow> string \<Rightarrow> string \<Rightarrow> task list
    \<Rightarrow> db_error option \<times> task list" where
  "db_delete fault uid tid tasks =
     (case fault of
        Some m \<Rightarrow> (Some (Failure m), tasks)
      | None \<Rightarrow> (None, filter (\<lambda>t. \<not> own uid tid t) tasks))"

text \<open>The object \<open>taskData = {...validationResult.data, user_id: user.id}\<close>.\<close>

record task_insert =
  ti_title :: string
  ti_description :: "string option"
  ti_status :: task_status
  ti_due_date :: "string option"
  ti_user_id :: string

definition taskData :: "task_create \<Rightarrow> string \<Rightarrow> task_insert" where
  "taskData d uid =
     \<lparr>ti_title = tc_title d, ti_description = tc_description d, ti_status = tc_status d,
      ti_due_date = tc_due_date d, ti_user_id = uid\<rparr>"

text \<open>
  Modelled from the spec: \<open>from('tasks').insert([taskData]).select().single()\<close> as the
  store serves it; the store generates the id and both timestamps.
\<close>

definition db_insert :: "string option \<Rightarrow> string \<Rightarrow> task_insert \<Rightarrow> string \<Rightarrow> int \<Rightarrow> task list
    \<Rightarrow> (db_error + task) \<times> task list" where
  "db_insert fault uid d new_id now tasks =
     (case fault of
        Some m \<Rightarrow> (Inl (Failure m), tasks)
      | None \<Rightarrow>
          if ti_user_id d \<noteq> uid then (Inl (Failure ''row-level security''), tasks)
          else (let row = \<lparr>task_id = new_id, user_id = ti_user_id d, title = ti_title d,
                            description = ti_description d, status = ti_status d,
                            due_date = ti_due_date d, created_at = now, updated_at = now\<rparr>
                in (Inr row, tasks @ [row])))"

section \<open>Requests and responses\<close>

datatype header_value = HStr string | HInt int

text \<open>The columns \<open>select('id, title, user_id, updated_at')\<close> returns.\<close>

record task_summary =
  s_id :: string
  s_title :: string
  s_user_id :: string
  s_updated_at :: int

text \<open>The JSON bodies the handlers send.\<close>

datatype payload =
    PError string
  | PErrorDetails string string
  | PRateLimited "int option"
  | PInvalid "zod_issue list"
  | PCached cached
  | PFresh task
  | PData task
  | PMessage string
  | PArchived nat "task_summary list" int
  | PArchivable nat "task_summary list" int

record response =
  status_code :: nat
  payload :: payload
  headers :: "(string \<times> header_value) list"

definition json_response :: "nat \<Rightarrow> payload \<Rightarrow> (string \<times> header_value) list \<Rightarrow> response" where
  "json_response st p hs = \<lparr>status_code = st, payload = p, headers = hs\<rparr>"

text \<open>
  What a task handler reads from its surroundings during one request: the user id
  \<open>supabase.auth.getUser()\<close> resolves (\<open>None\<close> for an error or no user), the two address
  headers and the user agent, the result \<open>checkRateLimit\<close> returns for this request, the
  value of \<open>request.json()\<close> (\<open>None\<close> when it throws), whether the store or the cache fail
  during the request, the clock and the id the store generates for a new row.
\<close>

record request =
  auth_user :: "string option"
  x_forwarded_for :: "string option"
  x_real_ip :: "string option"
  user_agent :: "string option"
  rate :: RateLimitResult
  json_body :: "json option"
  db_fault :: "string option"
  cache_fault :: bool
  clock :: int
  fresh_id :: string

text \<open>
  \<open>headersList.get('x-forwarded-for')?.split(',')[0] || headersList.get('x-real-ip') ||
  'unknown'\<close>.
\<close>

definition client_ip :: "request \<Rightarrow> string" where
  "client_ip r =
     (let forwarded = (case x_forwarded_for r of
                         None \<Rightarrow> []
                       | Some h \<Rightarrow> (case split_on CHR '','' h of [] \<Rightarrow> [] | a # _ \<Rightarrow> a))
      in if forwarded \<noteq> [] then forwarded
         else (case x_real_ip r of
                 Some a \<Rightarrow> if a \<noteq> [] then a else ''unknown''
               | None \<Rightarrow> ''unknown''))"

text \<open>\<open>logger.apiResponse\<close>: the level follows the status code.\<close>

definition apiResponse :: "nat \<Rightarrow> output_line" where
  "apiResponse st =
     Logged (if st \<ge> 400 then ERROR else if st \<ge> 300 then WARN else INFO) ''API response''"

text \<open>\<open>rateLimitResult.retryAfter?.toString() || '60'\<close>.\<close>

definition retry_after_header :: "RateLimitResult \<Rightarrow> header_value" where
  "retry_after_header rl = (case retryAfter rl of Some n \<Rightarrow> HInt n | None \<Rightarrow> HStr ''60'')"

definition rate_limit_headers :: "RateLimitResult \<Rightarrow> (string \<times> header_value) list" where
  "rate_limit_headers rl =
     [(''X-RateLimit-Limit'', HInt (limit rl)), (''X-RateLimit-Remaining'', HInt (remaining rl))]"

section \<open>Task handlers\<close>

text \<open>
  The handlers return the response and the state they leave. Each call on a collaborator
  is recorded in \<open>trace\<close> when it is made. The outer \<open>try/catch\<close> of a handler is
  followed for the one call whose failure is an input here, \<open>request.json()\<close>.
\<close>

definition too_many_requests :: "RateLimitResult \<Rightarrow> (string \<times> header_value) list \<Rightarrow> response" where
  "too_many_requests rl extra =
     json_response 429 (PRateLimited (retryAfter rl))
       ([(''Retry-After'', retry_after_header rl)] @ rate_limit_headers rl @ extra)"

text \<open>\<open>POST /api/tasks\<close>.\<close>

definition POST_tasks :: "request \<Rightarrow> world \<Rightarrow> response \<times> world" where
  "POST_tasks r w0 =
     (let w = call AuthGetUser (say (Logged INFO ''API request'') w0)
      in case auth_user r of
        None \<Rightarrow>
          (json_response 401 (PError ''Unauthorized'') [],
           say (apiResponse 401) (say (Logged WARN ''Authentication failed'') w))
      | Some uid \<Rightarrow>
          (let w = say (Logged INFO ''User authenticated for task creation'') w;
               rateLimitKey = createRateLimitKey (Some uid) (client_ip r);
               w = call (RateLimitCheck (prefix writeLimiter) rateLimitKey) w
           in if \<not> success (rate r) then
                (too_many_requests (rate r) [(''X-RateLimit-Reset'', HInt (reset (rate r)))],
                 say (apiResponse 429)
                   (say (Logged WARN ''Rate limit exceeded'')
                     (say (Console console_warn ''Rate limit exceeded:'') w)))
              else (case json_body r of
                None \<Rightarrow>
                  (json_response 500 (PError ''Internal server error'') [],
                   say (apiResponse 500) (say (Logged ERROR ''API Error in POST /api/tasks'') w))
              | Some b \<Rightarrow>
                  (let w = say (Logged DEBUG ''Task creation request body'') w
                   in case TaskCreateSchema b of
                     Inl issues \<Rightarrow>
                       (json_response 400 (PInvalid issues) [],
                        say (apiResponse 400)
                          (say (Logged WARN ''Task creation validation failed'') w))
                   | Inr d \<Rightarrow>
                       (let w = say (Logged DEBUG ''Database operation'') w;
                            (res, tasks') = db_insert (db_fault r) uid (taskData d uid)
                                              (fresh_id r) (clock r) (db w)
                        in case res of
                          Inl e \<Rightarrow>
                            (json_response 500 (PError ''Failed to create task'') [],
                             say (apiResponse 500)
                               (say (Logged ERROR ''Database error'')
                                 (call (DbCall Insert False) w)))
                        | Inr task \<Rightarrow>
                            (let w = call (DbCall Insert True) (w\<lparr>db := tasks'\<rparr>);
                                 w = say (Logged INFO ''Task created successfully'')
                                       (say (Logged DEBUG ''Database operation'') w);
                                 w = invalidateUserCache (cache_fault r) uid
                                       (call (CacheInvalidate uid) w);
                                 w = say (apiResponse 201) (say (Logged INFO ''Cache invalidated'') w)
                             in (json_response 201 (PData task) (rate_limit_headers (rate r)),
                                 w)))))))"

text \<open>\<open>GET /api/tasks/{id}\<close>.\<close>

definition GET_task :: "string \<Rightarrow> request \<Rightarrow> world \<Rightarrow> response \<times> world" where
  "GET_task tid r w0 =
     (let w = call AuthGetUser w0
      in case auth_user r of
        None \<Rightarrow> (json_response 401 (PError ''Unauthorized'') [], w)
      | Some uid \<Rightarrow>
          (let rateLimitKey = createRateLimitKey (Some uid) (client_ip r);
               w = call (RateLimitCheck (prefix readLimiter) rateLimitKey) w
           in if \<not> success (rate r) then
                (too_many_requests (rate r) [],
                 say (Console console_warn ''Rate limit exceeded:'') w)
              else
                (let cacheKey = getUserTaskKey uid tid;
                     (cachedTask, w) = CacheService_get (cache_fault r) cacheKey
                                         (call (CacheGet cacheKey) w)
                 in case cachedTask of
                   Some c \<Rightarrow>
                     (json_response 200 (PCached c)
                        (rate_limit_headers (rate r) @ [(''X-Cache'', HStr ''HIT'')]), w)
                 | None \<Rightarrow>
                     (case db_select_single (db_fault r) uid tid (db w) of
                        Inl e \<Rightarrow>
                          (if e = PGRST116 then
                             (json_response 404 (PError ''Task not found'') [],
                              call (DbCall Select False) w)
                           else
                             (json_response 500 (PError ''Failed to fetch task'') [],
                              say (Console console_error ''Database error:'')
                                (call (DbCall Select False) w)))
                      | Inr task \<Rightarrow>
                          (let w = call (DbCall Select True) w;
                               w = CacheService_set (cache_fault r) cacheKey (CTask task)
                                     (call (CacheSet cacheKey) w)
                           in (json_response 200 (PFresh task)
                                 (rate_limit_headers (rate r) @ [(''X-Cache'', HStr ''MISS'')]),
                               w))))))"

text \<open>\<open>PUT /api/tasks/{id}\<close>.\<close>

definition PUT_task :: "string \<Rightarrow> request \<Rightarrow> world \<Rightarrow> response \<times> world" where
  "PUT_task tid r w0 =
     (let w = call AuthGetUser w0
      in case auth_user r of
        None \<Rightarrow> (json_response 401 (PError ''Unauthorized'') [], w)
      | Some uid \<Rightarrow>
          (let rateLimitKey = createRateLimitKey (Some uid) (client_ip r);
               w = call (RateLimitCheck (prefix writeLimiter) rateLimitKey) w
           in if \<not> success (rate r) then
                (too_many_requests (rate r) [],
                 say (Console console_warn ''Rate limit exceeded:'') w)
              else (case json_body r of
                None \<Rightarrow>
                  (json_response 500 (PError ''Internal server error'') [],
                   say (Console console_error ''API Error:'') w)
              | Some b \<Rightarrow>
                  (case TaskUpdateSchema b of
                     Inl issues \<Rightarrow> (json_response 400 (PInvalid issues) [], w)
                   | Inr u \<Rightarrow>
                       (let (res, tasks') = db_update_single (db_fault r) uid tid u (clock r) (db w)
                        in case res of
                          Inl e \<Rightarrow>
                            (if e = PGRST116 then
                               (json_response 404 (PError ''Task not found'') [],
                                call (DbCall Update False) (w\<lparr>db := tasks'\<rparr>))
                             else
                               (json_response 500 (PError ''Failed to update task'') [],
                                say (Console console_error ''Database error:'')
                                  (call (DbCall Update False) (w\<lparr>db := tasks'\<rparr>))))
                        | Inr task \<Rightarrow>
                            (let w = call (DbCall Update True) (w\<lparr>db := tasks'\<rparr>);
                                 w = invalidateUserCache (cache_fault r) uid
                                       (call (CacheInvalidate uid) w)
                             in (json_response 200 (PData task) (rate_limit_headers (rate r)),
                                 w)))))))"

text \<open>\<open>DELETE /api/tasks/{id}\<close>. The delete is not followed by \<open>.select().single()\<close>.\<close>

definition DELETE_task :: "string \<Rightarrow> request \<Rightarrow> world \<Rightarrow> response \<times> world" where
  "DELETE_task tid r w0 =
     (let w = call AuthGetUser w0
      in case auth_user r of
        None \<Rightarrow> (json_response 401 (PError ''Unauthorized'') [], w)
      | Some uid \<Rightarrow>
          (let rateLimitKey = createRateLimitKey (Some uid) (client_ip r);
               w = call (RateLimitCheck (prefix writeLimiter) rateLimitKey) w
           in if \<not> success (rate r) then
                (too_many_requests (rate r) [],
                 say (Console console_warn ''Rate limit exceeded:'') w)
              else
                (let (err, tasks') = db_delete (db_fault r) uid tid (db w)
                 in case err of
                   Some e \<Rightarrow>
                     (json_response 500 (PError ''Failed to delete task'') [],
                      say (Console console_error ''Database error:'')
                        (call (DbCall Delete False) (w\<lparr>db := tasks'\<rparr>)))
                 | None \<Rightarrow>
                     (let w = call (DbCall Delete True) (w\<lparr>db := tasks'\<rparr>);
                          w = invalidateUserCache (cache_fault r) uid
                                (call (CacheInvalidate uid) w)
                      in (json_response 200 (PMessage ''Task deleted successfully'')
                            (rate_limit_headers (rate r)),
                          w)))))"

section \<open>Archival sweep (\<open>/api/admin/archive-tasks\<close>)\<close>

text \<open>
  What an archive handler reads: whether \<open>NODE_ENV\<close> is \<open>development\<close>, the
  \<open>authorization\<close> header, the clock when the cutoff is computed and when the update is
  issued, and whether the store fails.
\<close>

record archive_request =
  development :: bool
  authorization :: "string option"
  started :: int
  updated :: int
  store_fault :: "string option"

text \<open>
  \<open>thirtyDaysAgo.setDate(thirtyDaysAgo.getDate() - 30)\<close>, in a time zone without clock
  changes.
\<close>

definition thirtyDaysAgo :: "int \<Rightarrow> int" where
  "thirtyDaysAgo t = t - 30 * 86400000"

text \<open>The filter \<open>.eq('status', 'done').lt('updated_at', cutoff)\<close>.\<close>

definition archivable :: "int \<Rightarrow> task \<Rightarrow> bool" where
  "archivable cutoff t = (status t = Done \<and> updated_at t < cutoff)"

definition summary :: "task \<Rightarrow> task_summary" where
  "summary t = \<lparr>s_id = task_id t, s_title = title t, s_user_id = user_id t,
                s_updated_at = updated_at t\<rparr>"

text \<open>\<open>.update({status: 'archived', updated_at: ...})\<close> on one row.\<close>

definition archive :: "int \<Rightarrow> task \<Rightarrow> task" where
  "archive t_upd t = t\<lparr>status := Archived, updated_at := t_upd\<rparr>"

text \<open>\<open>authHeader?.includes('Bearer')\<close>.\<close>

definition has_bearer :: "string option \<Rightarrow> bool" where
  "has_bearer h = (case h of None \<Rightarrow> False | Some v \<Rightarrow> contains ''Bearer'' v)"

text \<open>
  \<open>POST /api/admin/archive-tasks\<close>. The service-role client is not subject to row-level
  authorization: the update ranges over the rows of every owner.
\<close>

definition archive_POST :: "archive_request \<Rightarrow> world \<Rightarrow> response \<times> world" where
  "archive_POST r w =
     (if \<not> development r \<and> \<not> has_bearer (authorization r) then
        (json_response 401 (PError ''Unauthorized'') [], w)
      else
        (let cutoff = thirtyDaysAgo (started r)
         in case store_fault r of
           Some m \<Rightarrow>
             (json_response 500 (PErrorDetails ''Failed to archive tasks'' m) [],
              say (Console console_error ''Error archiving tasks:'')
                (call (DbCall Update False) w))
         | None \<Rightarrow>
             (let data = map (\<lambda>t. summary (archive (updated r) t))
                           (filter (archivable cutoff) (db w));
                  tasks' = map (\<lambda>t. if archivable cutoff t then archive (updated r) t else t)
                             (db w);
                  w = say (Console console_log ''Manual task archiving completed:'')
                        (call (DbCall Update True) (w\<lparr>db := tasks'\<rparr>))
              in (json_response 200 (PArchived (length data) data cutoff) [], w))))"

text \<open>\<open>GET /api/admin/archive-tasks\<close>. The handler reads no header.\<close>

definition archive_GET :: "archive_request \<Rightarrow> world \<Rightarrow> response \<times> world" where
  "archive_GET r w =
     (let cutoff = thirtyDaysAgo (started r)
      in case store_fault r of
        Some m \<Rightarrow>
          (json_response 500 (PErrorDetails ''Failed to check archivable tasks'' m) [],
           say (Console console_error ''Error checking archivable tasks:'')
             (call (DbCall Select False) w))
      | None \<Rightarrow>
          (let data = map summary (filter (archivable cutoff) (db w))
           in (json_response 200 (PArchivable (length data) data cutoff) [],
               call (DbCall Select True) w)))"

section \<open>Example inputs\<close>

definition example_store :: "(string \<times> cached) list" where
  "example_store =
     [(''tasks:u1'', CTasks []), (''task:u1:t1'', CTasks []), (''tasks:u12'', CTasks []),
      (''rl:write:u1:10.0.0.1'', CTasks []), (''tasks:u2'', CTasks [])]"

definition fresh_limiter_state :: limiter_state where
  "fresh_limiter_state = \<lparr>hits = (\<lambda>k. []), console = []\<rparr>"

definition bobs_task :: task where
  "bobs_task = \<lparr>task_id = ''t1'', user_id = ''bob'', title = ''Buy milk'', description = None,
                 status = Done, due_date = None, created_at = 0, updated_at = 1000\<rparr>"

definition alices_task :: task where
  "alices_task = \<lparr>task_id = ''t2'', user_id = ''alice'', title = ''Write report'',
                   description = None, status = Todo, due_date = None, created_at = 0,
                   updated_at = 2000\<rparr>"

definition example_world :: world where
  "example_world = \<lparr>db = [bobs_task, alices_task], redis = [], trace = [], out = []\<rparr>"

definition allowed :: RateLimitResult where
  "allowed = \<lparr>success = True, limit = 20, remaining = 19, reset = 3000060000, retryAfter = None\<rparr>"

definition alice_request :: request where
  "alice_request = \<lparr>auth_user = Some ''alice'', x_forwarded_for = Some ''10.0.0.1'',
                     x_real_ip = None, user_agent = None, rate = allowed, json_body = None,
                     db_fault = None, cache_fault = False, clock = 3000000000,
                     fresh_id = ''t3''\<rparr>"

definition anonymous_sweep :: archive_request where
  "anonymous_sweep = \<lparr>development = False, authorization = None, started = 3000000000,
                       updated = 3000000001, store_fault = None\<rparr>"

definition service_sweep :: archive_request where
  "service_sweep = \<lparr>development = False, authorization = Some ''Bearer service-role-key'',
                     started = 3000000000, updated = 3000000001, store_fault = None\<rparr>"

definition create_request :: "(string \<times> json) list \<Rightarrow> request" where
  "create_request kvs = alice_request\<lparr>json_body := Some (JObj kvs)\<rparr>"

definition cached_world :: world where
  "cached_world =
     example_world\<lparr>redis := [(''tasks:alice'', CTasks [alices_task]),
                              (''task:alice:t2'', CTask alices_task),
                              (''tasks:bob'', CTasks [bobs_task])]\<rparr>"

definition update_request :: request where
  "update_request = alice_request\<lparr>json_body := Some (JObj [(''status'', JStr ''done'')])\<rparr>"

definition failing_update_request :: request where
  "failing_update_request = update_request\<lparr>db_fault := Some ''connection lost''\<rparr>"

section \<open>Verified properties\<close>

subsection \<open>CORS\<close>

lemma cors_fixed_headers:
  "getCORSHeaders env origin ''Access-Control-Allow-Methods'' = Some ''GET, POST, PUT, DELETE, OPTIONS''
   \<and> getCORSHeaders env origin ''Access-Control-Allow-Headers'' = Some ''Content-Type, Authorization, X-Requested-With''
   \<and> getCORSHeaders env origin ''Access-Control-Max-Age'' = Some ''86400''"
  by (simp add: getCORSHeaders_def Let_def split: option.splits)


text \<open>
  C8 (as amended). For every origin and every configured allow-list: the origin \<open>null\<close>
  is echoed with credentials allowed; a non-empty origin of the allow-list is echoed
  exactly, with credentials allowed; for every other origin, an empty or an absent one,
  no \<open>Access-Control-Allow-Origin\<close> header is emitted; and the allowed methods, the
  allowed request headers and a max-age of 86400 seconds are always present.
\<close>

theorem C8_cors_headers:
  "(origin = Some ''null'' \<longrightarrow>
      getCORSHeaders env origin ''Access-Control-Allow-Origin'' = Some ''null''
      \<and> getCORSHeaders env origin ''Access-Control-Allow-Credentials'' = Some ''true'')
   \<and> (\<forall>ori. origin = Some ori \<and> ori \<noteq> ''null'' \<and> ori \<noteq> [] \<and> ori \<in> set (allowedOrigins env) \<longrightarrow>
      getCORSHeaders env origin ''Access-Control-Allow-Origin'' = Some ori
      \<and> getCORSHeaders env origin ''Access-Control-Allow-Credentials'' = Some ''true'')
   \<and> (origin \<noteq> Some ''null''
       \<and> (\<forall>ori. origin = Some ori \<longrightarrow> ori = [] \<or> ori \<notin> set (allowedOrigins env)) \<longrightarrow>
      getCORSHeaders env origin ''Access-Control-Allow-Origin'' = None
      \<and> getCORSHeaders env origin ''Access-Control-Allow-Credentials'' = None)
   \<and> getCORSHeaders env origin ''Access-Control-Allow-Methods'' = Some ''GET, POST, PUT, DELETE, OPTIONS''
   \<and> getCORSHeaders env origin ''Access-Control-Allow-Headers'' = Some ''Content-Type, Authorization, X-Requested-With''
   \<and> getCORSHeaders env origin ''Access-Control-Max-Age'' = Some ''86400''"
proof -
  have fixed: "getCORSHeaders env origin ''Access-Control-Allow-Methods'' = Some ''GET, POST, PUT, DELETE, OPTIONS''
     \<and> getCORSHeaders env origin ''Access-Control-Allow-Headers'' = Some ''Content-Type, Authorization, X-Requested-With''
     \<and> getCORSHeaders env origin ''Access-Control-Max-Age'' = Some ''86400''"
    by (rule cors_fixed_headers)
  have null: "origin = Some ''null'' \<longrightarrow>
      getCORSHeaders env origin ''Access-Control-Allow-Origin'' = Some ''null''
      \<and> getCORSHeaders env origin ''Access-Control-Allow-Credentials'' = Some ''true''"
    by (simp add: getCORSHeaders_def)
  have listed: "\<forall>ori. origin = Some ori \<and> ori \<noteq> ''null'' \<and> ori \<noteq> [] \<and> ori \<in> set (allowedOrigins env) \<longrightarrow>
      getCORSHeaders env origin ''Access-Control-Allow-Origin'' = Some ori
      \<and> getCORSHeaders env origin ''Access-Control-Allow-Credentials'' = Some ''true''"
    by (simp add: getCORSHeaders_def)
  have other: "origin \<noteq> Some ''null''
       \<and> (\<forall>ori. origin = Some ori \<longrightarrow> ori = [] \<or> ori \<notin> set (allowedOrigins env)) \<longrightarrow>
      getCORSHeaders env origin ''Access-Control-Allow-Origin'' = None
      \<and> getCORSHeaders env origin ''Access-Control-Allow-Credentials'' = None"
    by (cases origin) (auto simp: getCORSHeaders_def)
  from null listed other fixed show ?thesis by blast
qed

lemma allowedOrigins_example:
  "allowedOrigins (Some ''http://localhost:3000,https://app.example'')
     = [''http://localhost:3000'', ''https://app.example'']"
  by (simp add: allowedOrigins_def)

theorem C8_cors_headers_witness:
  "getCORSHeaders (Some ''http://localhost:3000,https://app.example'') (Some ''null'')
       ''Access-Control-Allow-Origin'' = Some ''null''
   \<and> getCORSHeaders (Some ''http://localhost:3000,https://app.example'') (Some ''https://app.example'')
       ''Access-Control-Allow-Origin'' = Some ''https://app.example''
   \<and> getCORSHeaders (Some ''http://localhost:3000,https://app.example'') (Some ''https://app.example'')
       ''Access-Control-Allow-Credentials'' = Some ''true''
   \<and> getCORSHeaders (Some ''http://localhost:3000,https://app.example'') (Some ''https://evil.example'')
       ''Access-Control-Allow-Origin'' = None
   \<and> getCORSHeaders (Some ''http://localhost:3000,https://app.example'') None
       ''Access-Control-Allow-Origin'' = None"
  using C8_cors_headers [of "Some ''null''" "Some ''http://localhost:3000,https://app.example''"]
        C8_cors_headers [of "Some ''https://app.example''" "Some ''http://localhost:3000,https://app.example''"]
        C8_cors_headers [of "Some ''https://evil.example''" "Some ''http://localhost:3000,https://app.example''"]
        C8_cors_headers [of None "Some ''http://localhost:3000,https://app.example''"]
  by (simp add: allowedOrigins_example)

text \<open>
  C8 as stated fails at the empty origin: with \<open>CORS_ORIGINS\<close> set to the empty string
  the allow-list is \<open>[""]\<close>, the empty \<open>Origin\<close> value is a member of it, and yet no
  \<open>Access-Control-Allow-Origin\<close> header is emitted.
\<close>

theorem C8_empty_origin_counterexample:
  "[] \<in> set (allowedOrigins (Some []))
   \<and> getCORSHeaders (Some []) (Some []) ''Access-Control-Allow-Origin'' \<noteq> Some []"
  by (simp add: allowedOrigins_def getCORSHeaders_def)


subsection \<open>Cache keys and pattern invalidation\<close>

lemma is_prefix_iff: "is_prefix a s \<longleftrightarrow> (\<exists>t. s = a @ t)"
  by (induction a s rule: is_prefix.induct) auto

lemma contains_iff: "contains sub s \<longleftrightarrow> (\<exists>a b. s = a @ sub @ b)"
proof (induction s)
  case Nil
  then show ?case by simp
next
  case (Cons c s)
  note IH = Cons.IH
  show ?case
  proof
    assume "contains sub (c # s)"
    then consider "is_prefix sub (c # s)" | "contains sub s" by auto
    then show "\<exists>a b. c # s = a @ sub @ b"
    proof cases
      case 1
      then obtain t where "c # s = sub @ t" by (auto simp: is_prefix_iff)
      then have "c # s = [] @ sub @ t" by simp
      then show ?thesis by blast
    next
      case 2
      then obtain a b where "s = a @ sub @ b" using IH by auto
      then have "c # s = (c # a) @ sub @ b" by simp
      then show ?thesis by blast
    qed
  next
    assume "\<exists>a b. c # s = a @ sub @ b"
    then obtain a b where ab: "c # s = a @ sub @ b" by auto
    show "contains sub (c # s)"
    proof (cases a)
      case Nil
      then have "is_prefix sub (c # s)" using ab by (simp add: is_prefix_iff)
      then show ?thesis by simp
    next
      case (Cons x a')
      then have "s = a' @ sub @ b" using ab by simp
      then show ?thesis using IH by auto
    qed
  qed
qed

lemma glob_star: "glob (CHR ''*'' # ps) s \<longleftrightarrow> (\<exists>a b. s = a @ b \<and> glob ps b)"
proof (induction s)
  case Nil
  then show ?case by simp
next
  case (Cons c s)
  note IH = Cons.IH
  show ?case
  proof
    assume "glob (CHR ''*'' # ps) (c # s)"
    then consider "glob ps (c # s)" | "glob (CHR ''*'' # ps) s" by auto
    then show "\<exists>a b. c # s = a @ b \<and> glob ps b"
    proof cases
      case 1
      then have "c # s = [] @ (c # s) \<and> glob ps (c # s)" by simp
      then show ?thesis by blast
    next
      case 2
      then obtain a b where "s = a @ b" "glob ps b" using IH by auto
      then have "c # s = (c # a) @ b \<and> glob ps b" by simp
      then show ?thesis by blast
    qed
  next
    assume "\<exists>a b. c # s = a @ b \<and> glob ps b"
    then obtain a b where ab: "c # s = a @ b" "glob ps b" by auto
    show "glob (CHR ''*'' # ps) (c # s)"
    proof (cases a)
      case Nil
      then show ?thesis using ab by auto
    next
      case (Cons x a')
      then have "s = a' @ b" using ab by simp
      then show ?thesis using IH ab(2) by auto
    qed
  qed
qed

lemma glob_plain: "plain lit \<Longrightarrow> glob (lit @ ps) s \<longleftrightarrow> (\<exists>t. s = lit @ t \<and> glob ps t)"
proof (induction lit arbitrary: s)
  case Nil
  then show ?case by simp
next
  case (Cons x lit)
  then have x: "x \<noteq> CHR ''*''" "x \<noteq> CHR ''?''" and pl: "plain lit"
    by (auto simp: plain_def)
  note IH = Cons.IH [OF pl]
  show ?case
  proof (cases s)
    case Nil
    then show ?thesis using x by simp
  next
    case (Cons c t)
    then show ?thesis using x IH [of t] by auto
  qed
qed

lemma glob_all: "glob ''*'' s"
  by (induction s) auto

lemma glob_user_pattern:
  assumes "plain u"
  shows "glob (''*:'' @ u @ ''*'') k \<longleftrightarrow> contains ('':'' @ u) k"
proof -
  have pl: "plain ('':'' @ u)" using assms by (simp add: plain_def)
  have "glob (''*:'' @ u @ ''*'') k \<longleftrightarrow> (\<exists>a b. k = a @ b \<and> glob (('':'' @ u) @ ''*'') b)"
    using glob_star [of "('':'' @ u) @ ''*''" k] by simp
  also have "\<dots> \<longleftrightarrow> (\<exists>a b. k = a @ b \<and> (\<exists>t. b = ('':'' @ u) @ t \<and> glob ''*'' t))"
    using glob_plain [OF pl] by simp
  also have "\<dots> \<longleftrightarrow> (\<exists>a t. k = a @ ('':'' @ u) @ t)"
    using glob_all by auto
  also have "\<dots> \<longleftrightarrow> contains ('':'' @ u) k"
    by (simp add: contains_iff)
  finally show ?thesis .
qed

lemma redis_del_keys:
  "redis_del (redis_keys p store) store = filter (\<lambda>(k, v). \<not> glob p k) store"
proof -
  have "\<And>k v. (k, v) \<in> set store \<Longrightarrow> (k \<notin> set (redis_keys p store)) = (\<not> glob p k)"
    by (force simp: redis_keys_def)
  then show ?thesis
    unfolding redis_del_def by (intro filter_cong) auto
qed

lemma invalidatePattern_reachable:
  "redis (invalidatePattern False p w) = filter (\<lambda>(k, v). \<not> glob p k) (redis w)"
proof (cases "redis_keys p (redis w) = []")
  case True
  then have "\<forall>x \<in> set (redis w). \<not> glob p (fst x)"
    by (auto simp: redis_keys_def filter_empty_conv)
  then have "filter (\<lambda>(k, v). \<not> glob p k) (redis w) = redis w"
    by (intro filter_True) auto
  then show ?thesis using True by (simp add: invalidatePattern_def)
next
  case False
  then show ?thesis by (simp add: invalidatePattern_def redis_del_keys)
qed

lemma invalidatePattern_rest:
  "db (invalidatePattern f p w) = db w \<and> trace (invalidatePattern f p w) = trace w"
  by (simp add: invalidatePattern_def say_def Let_def)

lemma invalidatePattern_fault:
  "invalidatePattern True p w = say (Console console_error ''Cache invalidate pattern error:'') w"
  by (simp add: invalidatePattern_def)

lemma own_keys_contain:
  "contains ('':'' @ u) (getUserTasksKey u) \<and> contains ('':'' @ u) (getUserTaskKey u t)"
proof -
  have "getUserTasksKey u = ''tasks'' @ ('':'' @ u) @ []"
    by (simp add: getUserTasksKey_def)
  moreover have "getUserTaskKey u t = ''task'' @ ('':'' @ u) @ ('':'' @ t)"
    by (simp add: getUserTaskKey_def)
  ultimately show ?thesis unfolding contains_iff by blast
qed

text \<open>
  C10. With the store reachable and an owner id free of pattern metacharacters,
  \<open>invalidateUserCache\<close> removes from the store exactly the keys matching
  \<open>*:{ownerId}*\<close>, which are exactly the keys containing \<open>:\<close> followed by the owner id:
  the owner's \<open>tasks:{ownerId}\<close> and every \<open>task:{ownerId}:{taskId}\<close> are among them, and
  so is any other key with that substring; every other entry is kept.
\<close>

theorem C10_invalidateUserCache_deletes_pattern:
  assumes "plain ownerId"
  shows "redis (invalidateUserCache False ownerId w)
           = filter (\<lambda>(k, v). \<not> glob (''*:'' @ ownerId @ ''*'') k) (redis w)
         \<and> redis (invalidateUserCache False ownerId w)
           = filter (\<lambda>(k, v). \<not> contains ('':'' @ ownerId) k) (redis w)
         \<and> glob (''*:'' @ ownerId @ ''*'') (getUserTasksKey ownerId)
         \<and> (\<forall>taskId. glob (''*:'' @ ownerId @ ''*'') (getUserTaskKey ownerId taskId))
         \<and> (\<forall>k. contains ('':'' @ ownerId) k \<longrightarrow>
               k \<notin> fst ` set (redis (invalidateUserCache False ownerId w)))"
proof -
  let ?p = "''*:'' @ ownerId @ ''*''"
  have g: "\<And>k. glob ?p k \<longleftrightarrow> contains ('':'' @ ownerId) k"
    by (rule glob_user_pattern [OF assms])
  have a: "redis (invalidateUserCache False ownerId w) = filter (\<lambda>(k, v). \<not> glob ?p k) (redis w)"
    unfolding invalidateUserCache_def by (rule invalidatePattern_reachable)
  have b: "redis (invalidateUserCache False ownerId w)
             = filter (\<lambda>(k, v). \<not> contains ('':'' @ ownerId) k) (redis w)"
    unfolding a using g by simp
  have c: "glob ?p (getUserTasksKey ownerId)"
    using g own_keys_contain by blast
  have d: "\<forall>taskId. glob ?p (getUserTaskKey ownerId taskId)"
    using g own_keys_contain by blast
  have e: "\<forall>k. contains ('':'' @ ownerId) k \<longrightarrow>
               k \<notin> fst ` set (redis (invalidateUserCache False ownerId w))"
    unfolding b by auto
  from a b c d e show ?thesis by blast
qed

theorem C10_invalidateUserCache_witness:
  "plain ''u1''
   \<and> redis (invalidateUserCache False ''u1''
        \<lparr>db = [], redis = example_store, trace = [], out = []\<rparr>)
      = [(''tasks:u2'', CTasks [])]"
proof -
  have p: "plain ''u1''" by (simp add: plain_def)
  show ?thesis
    using p C10_invalidateUserCache_deletes_pattern [OF p,
        of "\<lparr>db = [], redis = example_store, trace = [], out = []\<rparr>"]
    by (simp add: example_store_def)
qed


subsection \<open>Rate limiter\<close>

lemma check_admits:
  assumes "length (filter (\<lambda>x. t - window_ms lim < x) (hits s (prefix lim @ '':'' @ key))) < tokens lim"
  shows "success (fst (checkRateLimit False lim key t s))
         \<and> retryAfter (fst (checkRateLimit False lim key t s)) = None
         \<and> hits (snd (checkRateLimit False lim key t s)) (prefix lim @ '':'' @ key)
             = t # filter (\<lambda>x. t - window_ms lim < x) (hits s (prefix lim @ '':'' @ key))"
  using assms by (simp add: checkRateLimit_def sliding_window_limit_def Let_def)

lemma check_denies:
  assumes "\<not> length (filter (\<lambda>x. t - window_ms lim < x) (hits s (prefix lim @ '':'' @ key))) < tokens lim"
  shows "\<not> success (fst (checkRateLimit False lim key t s))
         \<and> retryAfter (fst (checkRateLimit False lim key t s))
             = Some (ceil_div (earliest t (filter (\<lambda>x. t - window_ms lim < x)
                        (hits s (prefix lim @ '':'' @ key))) + window_ms lim - t) 1000)
         \<and> hits (snd (checkRateLimit False lim key t s)) (prefix lim @ '':'' @ key)
             = filter (\<lambda>x. t - window_ms lim < x) (hits s (prefix lim @ '':'' @ key))"
  using assms by (simp add: checkRateLimit_def sliding_window_limit_def Let_def)

lemma window_filter:
  fixes t1 w t :: int
  assumes "\<forall>x \<in> set xs. x \<le> t1 - w \<or> t1 \<le> x" "t1 \<le> t" "t < t1 + w"
  shows "filter (\<lambda>x. t - w < x) xs = filter (\<lambda>x. t1 \<le> x) xs"
  using assms by (intro filter_cong) auto

lemma run_checks_admit:
  assumes "\<forall>x \<in> set (hits s (prefix lim @ '':'' @ key)). x \<le> t1 - window_ms lim \<or> t1 \<le> x"
    and "\<forall>t \<in> set ts. t1 \<le> t \<and> t < t1 + window_ms lim"
    and "length (filter (\<lambda>x. t1 \<le> x) (hits s (prefix lim @ '':'' @ key))) + length ts \<le> tokens lim"
  shows "(\<forall>r \<in> set (fst (run_checks (checkRateLimit False lim key) ts s)). success r)
         \<and> length (fst (run_checks (checkRateLimit False lim key) ts s)) = length ts
         \<and> filter (\<lambda>x. t1 \<le> x)
               (hits (snd (run_checks (checkRateLimit False lim key) ts s)) (prefix lim @ '':'' @ key))
             = rev ts @ filter (\<lambda>x. t1 \<le> x) (hits s (prefix lim @ '':'' @ key))
         \<and> (\<forall>x \<in> set (hits (snd (run_checks (checkRateLimit False lim key) ts s))
                          (prefix lim @ '':'' @ key)). x \<le> t1 - window_ms lim \<or> t1 \<le> x)"
  using assms
proof (induction ts arbitrary: s)
  case Nil
  then show ?case by simp
next
  case (Cons t ts)
  let ?k = "prefix lim @ '':'' @ key"
  let ?R = "filter (\<lambda>x. t1 \<le> x) (hits s ?k)"
  obtain r s' where step: "checkRateLimit False lim key t s = (r, s')"
    by (cases "checkRateLimit False lim key t s") auto
  have tin: "t1 \<le> t" "t < t1 + window_ms lim" using Cons.prems(2) by auto
  have rec: "filter (\<lambda>x. t - window_ms lim < x) (hits s ?k) = ?R"
    using window_filter [OF Cons.prems(1) tin] .
  have lt: "length ?R < tokens lim" using Cons.prems(3) by simp
  have "length (filter (\<lambda>x. t - window_ms lim < x) (hits s ?k)) < tokens lim"
    using lt by (simp only: rec)
  from check_admits [OF this]
  have adm: "success r \<and> hits s' ?k = t # ?R"
    unfolding step rec by simp
  have inv1: "\<forall>x \<in> set (hits s' ?k). x \<le> t1 - window_ms lim \<or> t1 \<le> x"
    using adm tin by auto
  have inv2: "\<forall>t \<in> set ts. t1 \<le> t \<and> t < t1 + window_ms lim"
    using Cons.prems(2) by simp
  have keep: "filter (\<lambda>x. t1 \<le> x) (hits s' ?k) = t # ?R"
    using adm tin by simp
  have inv3: "length (filter (\<lambda>x. t1 \<le> x) (hits s' ?k)) + length ts \<le> tokens lim"
    using Cons.prems(3) keep by simp
  note IH = Cons.IH [OF inv1 inv2 inv3]
  obtain rs s'' where rest: "run_checks (checkRateLimit False lim key) ts s' = (rs, s'')"
    by (cases "run_checks (checkRateLimit False lim key) ts s'") auto
  have run: "run_checks (checkRateLimit False lim key) (t # ts) s = (r # rs, s'')"
    using step rest by simp
  show ?case
    using IH adm keep unfolding run rest by simp
qed

lemma earliest_lower: "(d::int) \<ge> m \<Longrightarrow> \<forall>x \<in> set xs. m \<le> x \<Longrightarrow> m \<le> earliest d xs"
  by (induction xs) auto

lemma earliest_member: "m \<in> set xs \<Longrightarrow> earliest d xs \<le> m"
  by (induction xs) auto

lemma filter_drops:
  assumes "x \<in> set xs" "\<not> P x"
  shows "length (filter P xs) < length xs"
  using assms by (induction xs) (auto simp: less_Suc_eq_le)

lemma ceil_div_pos: "0 < a \<Longrightarrow> 0 < ceil_div a 1000"
  unfolding ceil_div_def by (simp add: div_neg_pos_less0 flip: neg_0_less_iff_less)

lemma limiter_kinds:
  assumes "lim \<in> {readLimiter, writeLimiter, authLimiter}"
  shows "window_ms lim = 60000 \<and> tokens lim \<in> {60, 20, 10} \<and> 0 < tokens lim"
  using assms by (auto simp: readLimiter_def writeLimiter_def authLimiter_def)


text \<open>
  C2, for the definition of \<open>checkRateLimit\<close> that calls the limiter, with the store
  reachable. For each limiter kind (read with cap 60, write with cap 20, auth with cap
  10) and every identifier key with no admitted request in the 60 seconds before \<open>t1\<close>:
  the N checks made at instants of the window opening at \<open>t1\<close> all succeed; one more
  check at an instant \<open>t\<close> of that window is denied with
  \<open>retryAfter = ceil((t1 + 60000 - t) / 1000)\<close>, which is positive; and a check once the
  window has elapsed succeeds again.
\<close>

theorem C2_sliding_window:
  assumes kind: "lim \<in> {readLimiter, writeLimiter, authLimiter}"
    and fresh: "\<forall>x \<in> set (hits s (prefix lim @ '':'' @ key)). x \<le> t1 - 60000"
    and count: "length ts = tokens lim"
    and first: "hd ts = t1"
    and inside: "\<forall>t \<in> set ts. t1 \<le> t \<and> t < t1 + 60000"
    and next_check: "t1 \<le> t \<and> t < t1 + 60000"
    and later: "t1 + 60000 \<le> t'"
  shows "(\<forall>r \<in> set (fst (run_checks (checkRateLimit False lim key) ts s)). success r)
    \<and> length (fst (run_checks (checkRateLimit False lim key) ts s)) = tokens lim
    \<and> \<not> success (fst (checkRateLimit False lim key t
                          (snd (run_checks (checkRateLimit False lim key) ts s))))
    \<and> retryAfter (fst (checkRateLimit False lim key t
                          (snd (run_checks (checkRateLimit False lim key) ts s))))
        = Some (ceil_div (t1 + 60000 - t) 1000)
    \<and> 0 < ceil_div (t1 + 60000 - t) 1000
    \<and> success (fst (checkRateLimit False lim key t'
                       (snd (checkRateLimit False lim key t
                          (snd (run_checks (checkRateLimit False lim key) ts s))))))"
proof -
  let ?k = "prefix lim @ '':'' @ key"
  let ?chk = "checkRateLimit False lim key"
  let ?s1 = "snd (run_checks ?chk ts s)"
  let ?s2 = "snd (?chk t ?s1)"
  have w: "window_ms lim = 60000" and pos: "0 < tokens lim"
    using limiter_kinds [OF kind] by auto
  have stale: "filter (\<lambda>x. t1 \<le> x) (hits s ?k) = []"
    using fresh by (auto simp: filter_empty_conv)
  have a1: "\<forall>x \<in> set (hits s ?k). x \<le> t1 - window_ms lim \<or> t1 \<le> x"
    using fresh w by auto
  have a2: "\<forall>t \<in> set ts. t1 \<le> t \<and> t < t1 + window_ms lim"
    using inside w by simp
  have a3: "length (filter (\<lambda>x. t1 \<le> x) (hits s ?k)) + length ts \<le> tokens lim"
    using stale count by simp
  note run = run_checks_admit [OF a1 a2 a3]
  have all_ok: "\<forall>r \<in> set (fst (run_checks ?chk ts s)). success r"
    and len: "length (fst (run_checks ?chk ts s)) = tokens lim"
    and log1: "filter (\<lambda>x. t1 \<le> x) (hits ?s1 ?k) = rev ts"
    and inv1: "\<forall>x \<in> set (hits ?s1 ?k). x \<le> t1 - window_ms lim \<or> t1 \<le> x"
    using run stale count by auto
  have tin: "t1 \<le> t" "t < t1 + window_ms lim" using next_check w by auto
  have recent: "filter (\<lambda>x. t - window_ms lim < x) (hits ?s1 ?k) = rev ts"
    using window_filter [OF inv1 tin] log1 by simp
  have full: "\<not> length (filter (\<lambda>x. t - window_ms lim < x) (hits ?s1 ?k)) < tokens lim"
    using recent count by simp
  have nonempty: "ts \<noteq> []" using count pos by auto
  then have t1_in: "t1 \<in> set ts" using first by auto
  have "earliest t (rev ts) \<le> t1"
    using earliest_member [of t1 "rev ts" t] t1_in by simp
  moreover have "t1 \<le> earliest t (rev ts)"
    using earliest_lower [of t1 t "rev ts"] tin(1) inside by simp
  ultimately have early: "earliest t (rev ts) = t1" by simp
  note deny = check_denies [OF full, unfolded recent early]
  have denied: "\<not> success (fst (?chk t ?s1))"
    using deny by simp
  have retry: "retryAfter (fst (?chk t ?s1)) = Some (ceil_div (t1 + 60000 - t) 1000)"
    using deny w by simp
  have positive: "0 < ceil_div (t1 + 60000 - t) 1000"
    using next_check by (intro ceil_div_pos) simp
  have log2: "hits ?s2 ?k = rev ts"
    using deny by simp
  have "\<not> (t' - window_ms lim < t1)" using later w by simp
  then have "length (filter (\<lambda>x. t' - window_ms lim < x) (rev ts)) < length (rev ts)"
    using t1_in by (intro filter_drops [of t1]) auto
  then have room: "length (filter (\<lambda>x. t' - window_ms lim < x) (hits ?s2 ?k)) < tokens lim"
    unfolding log2 using count by simp
  have again: "success (fst (?chk t' ?s2))"
    using check_admits [OF room] by simp
  from all_ok len denied retry positive again show ?thesis by blast
qed

theorem C2_sliding_window_witness:
  "success (fst (checkRateLimit False authLimiter ''u1:10.0.0.1'' 0 fresh_limiter_state))
   \<and> \<not> success (fst (checkRateLimit False authLimiter ''u1:10.0.0.1'' 1500
         (snd (run_checks (checkRateLimit False authLimiter ''u1:10.0.0.1'')
                 [0, 1, 2, 3, 4, 5, 6, 7, 8, 9] fresh_limiter_state))))
   \<and> retryAfter (fst (checkRateLimit False authLimiter ''u1:10.0.0.1'' 1500
         (snd (run_checks (checkRateLimit False authLimiter ''u1:10.0.0.1'')
                 [0, 1, 2, 3, 4, 5, 6, 7, 8, 9] fresh_limiter_state)))) = Some 59
   \<and> success (fst (checkRateLimit False authLimiter ''u1:10.0.0.1'' 60000
         (snd (checkRateLimit False authLimiter ''u1:10.0.0.1'' 1500
           (snd (run_checks (checkRateLimit False authLimiter ''u1:10.0.0.1'')
                 [0, 1, 2, 3, 4, 5, 6, 7, 8, 9] fresh_limiter_state))))))"
proof -
  have kind: "authLimiter \<in> {readLimiter, writeLimiter, authLimiter}" by simp
  have fresh: "\<forall>x \<in> set (hits fresh_limiter_state (prefix authLimiter @ '':'' @ ''u1:10.0.0.1'')).
                 x \<le> 0 - 60000"
    by (simp add: fresh_limiter_state_def)
  have count: "length [0, 1, 2, 3, 4, 5, 6, 7, 8, 9 :: int] = tokens authLimiter"
    by (simp add: authLimiter_def)
  have first: "hd [0, 1, 2, 3, 4, 5, 6, 7, 8, 9 :: int] = 0" by simp
  have inside: "\<forall>t \<in> set [0, 1, 2, 3, 4, 5, 6, 7, 8, 9 :: int]. 0 \<le> t \<and> t < 0 + 60000" by simp
  have next_check: "(0::int) \<le> 1500 \<and> (1500::int) < 0 + 60000" by simp
  have later: "(0::int) + 60000 \<le> 60000" by simp
  have one: "success (fst (checkRateLimit False authLimiter ''u1:10.0.0.1'' 0 fresh_limiter_state))"
    by (simp add: checkRateLimit_def sliding_window_limit_def authLimiter_def fresh_limiter_state_def)
  have c: "ceil_div (0 + 60000 - 1500) 1000 = 59" by (simp add: ceil_div_def)
  from C2_sliding_window [OF kind fresh count first inside next_check later] one c
  show ?thesis by simp
qed

lemma checkRateLimit_bypass_result:
  "fst (checkRateLimit_bypass lim key now s)
     = \<lparr>success = True, limit = 60, remaining = 59, reset = now + 60000, retryAfter = None\<rparr>
   \<and> hits (snd (checkRateLimit_bypass lim key now s)) = hits s"
  by (simp add: checkRateLimit_bypass_def)

text \<open>
  C2, at the failing input, for the definition of \<open>checkRateLimit\<close> that bypasses the
  limiter: with the write limiter (cap 20), 21 checks of one key within one window all
  return \<open>success = true\<close>; the 21st is not denied.
\<close>

theorem C2_bypass_admits_every_check:
  "map success (fst (run_checks (checkRateLimit_bypass writeLimiter ''u1:10.0.0.1'')
        [0, 1, 2, 3, 4, 5, 6, 7, 8, 9, 10, 11, 12, 13, 14, 15, 16, 17, 18, 19, 20]
        fresh_limiter_state))
     = replicate 21 True"
  by (simp add: checkRateLimit_bypass_def eval_nat_numeral)

text \<open>
  C9 (as amended). When the call on the backing store raises an error, the check returns
  the default result with \<open>success = true\<close> (limit 60, remaining 59, reset one minute
  ahead, no \<open>retryAfter\<close>) and raises nothing; the limiter's store is untouched, and the
  failure is written with \<open>console.error\<close>, at error level.
\<close>

theorem C9_fail_open:
  "fst (checkRateLimit True lim key now s)
     = \<lparr>success = True, limit = 60, remaining = 59, reset = now + 60000, retryAfter = None\<rparr>
   \<and> success (fst (checkRateLimit True lim key now s))
   \<and> hits (snd (checkRateLimit True lim key now s)) = hits s
   \<and> console (snd (checkRateLimit True lim key now s))
       = console s @ [Console console_error ''Rate limit check error:'']"
  by (simp add: checkRateLimit_def)

text \<open>
  C9 as stated fails on the log level: the line written when the store call raises is
  not a warning.
\<close>

theorem C9_not_a_warning_counterexample:
  "\<not> list_ex is_warning
       (console (snd (checkRateLimit True readLimiter ''u1:10.0.0.1'' 0 fresh_limiter_state)))"
  by (simp add: checkRateLimit_def fresh_limiter_state_def is_warning_def)


subsection \<open>Archival sweep\<close>

lemma archive_leaves_none:
  "filter (archivable c) (map (\<lambda>t. if archivable c t then archive u t else t) xs) = []"
  by (induction xs) (auto simp: archivable_def archive_def)

lemma archive_fixpoint:
  "\<forall>t \<in> set xs. \<not> archivable c t \<Longrightarrow> map (\<lambda>t. if archivable c t then archive u t else t) xs = xs"
  by (induction xs) auto

lemma archive_POST_authorized:
  assumes "development r \<or> has_bearer (authorization r)" "store_fault r = None"
  shows "archive_POST r w =
     (json_response 200
        (PArchived (length (filter (archivable (thirtyDaysAgo (started r))) (db w)))
           (map (\<lambda>t. summary (archive (updated r) t))
              (filter (archivable (thirtyDaysAgo (started r))) (db w)))
           (thirtyDaysAgo (started r))) [],
      say (Console console_log ''Manual task archiving completed:'')
        (call (DbCall Update True)
           (w\<lparr>db := map (\<lambda>t. if archivable (thirtyDaysAgo (started r)) t
                              then archive (updated r) t else t) (db w)\<rparr>)))"
  using assms by (auto simp: archive_POST_def Let_def)

lemma db_say_call: "db (say l w) = db w" "db (call e w) = db w"
  by (simp_all add: say_def call_def)

text \<open>
  C5. An authorized sweep that the store serves archives exactly the tasks with status
  \<open>done\<close> and \<open>updated_at\<close> earlier than the cutoff: each of them gets status
  \<open>archived\<close> and the update instant as \<open>updated_at\<close>, every other task is left as it
  was, and the response counts and lists them. No candidate remains afterwards, so a
  second sweep with the same cutoff reports \<open>archived_count = 0\<close> and changes no task.
\<close>

theorem C5_archival_sweep:
  assumes "development r \<or> has_bearer (authorization r)" and "store_fault r = None"
    and "development r2 \<or> has_bearer (authorization r2)" and "store_fault r2 = None"
    and "started r2 = started r"
  shows "db (snd (archive_POST r w))
           = map (\<lambda>t. if status t = Done \<and> updated_at t < thirtyDaysAgo (started r)
                       then t\<lparr>status := Archived, updated_at := updated r\<rparr> else t) (db w)
    \<and> status_code (fst (archive_POST r w)) = 200
    \<and> payload (fst (archive_POST r w))
        = PArchived (length (filter (archivable (thirtyDaysAgo (started r))) (db w)))
            (map (\<lambda>t. summary (archive (updated r) t))
               (filter (archivable (thirtyDaysAgo (started r))) (db w)))
            (thirtyDaysAgo (started r))
    \<and> filter (archivable (thirtyDaysAgo (started r))) (db (snd (archive_POST r w))) = []
    \<and> payload (fst (archive_POST r2 (snd (archive_POST r w))))
        = PArchived 0 [] (thirtyDaysAgo (started r))
    \<and> db (snd (archive_POST r2 (snd (archive_POST r w)))) = db (snd (archive_POST r w))"
proof -
  let ?c = "thirtyDaysAgo (started r)"
  let ?w1 = "snd (archive_POST r w)"
  note first = archive_POST_authorized [OF assms(1,2), of w]
  have db1: "db ?w1 = map (\<lambda>t. if archivable ?c t then archive (updated r) t else t) (db w)"
    unfolding first by (simp add: db_say_call)
  have shape: "db ?w1 = map (\<lambda>t. if status t = Done \<and> updated_at t < ?c
                       then t\<lparr>status := Archived, updated_at := updated r\<rparr> else t) (db w)"
    unfolding db1 by (simp add: archivable_def archive_def)
  have st: "status_code (fst (archive_POST r w)) = 200"
    unfolding first by (simp add: json_response_def)
  have pl: "payload (fst (archive_POST r w))
        = PArchived (length (filter (archivable ?c) (db w)))
            (map (\<lambda>t. summary (archive (updated r) t)) (filter (archivable ?c) (db w))) ?c"
    unfolding first by (simp add: json_response_def)
  have none: "filter (archivable ?c) (db ?w1) = []"
    unfolding db1 by (rule archive_leaves_none)
  note second = archive_POST_authorized [OF assms(3,4), of ?w1]
  have pl2: "payload (fst (archive_POST r2 ?w1)) = PArchived 0 [] ?c"
    unfolding second using none by (simp add: json_response_def assms(5))
  have "\<forall>t \<in> set (db ?w1). \<not> archivable ?c t"
    using none by (simp add: filter_empty_conv)
  then have db2: "db (snd (archive_POST r2 ?w1)) = db ?w1"
    unfolding second by (simp add: db_say_call assms(5) archive_fixpoint)
  from shape st pl none pl2 db2 show ?thesis by blast
qed

theorem C5_archival_sweep_witness:
  "payload (fst (archive_POST service_sweep example_world))
     = PArchived 1 [\<lparr>s_id = ''t1'', s_title = ''Buy milk'', s_user_id = ''bob'',
                      s_updated_at = 3000000001\<rparr>] 408000000
   \<and> payload (fst (archive_POST service_sweep (snd (archive_POST service_sweep example_world))))
     = PArchived 0 [] 408000000"
proof -
  have a: "development service_sweep \<or> has_bearer (authorization service_sweep)"
    by (simp add: service_sweep_def has_bearer_def)
  have f: "store_fault service_sweep = None"
    by (simp add: service_sweep_def)
  have c: "thirtyDaysAgo (started service_sweep) = 408000000"
    by (simp add: service_sweep_def thirtyDaysAgo_def)
  have u: "updated service_sweep = 3000000001"
    by (simp add: service_sweep_def)
  from C5_archival_sweep [OF a f a f refl, of example_world]
  show ?thesis
    unfolding c u
    by (simp add: example_world_def bobs_task_def alices_task_def archivable_def archive_def
        summary_def)
qed

lemma archive_POST_requires_bearer:
  assumes "\<not> development r" "\<not> has_bearer (authorization r)"
  shows "archive_POST r w = (json_response 401 (PError ''Unauthorized'') [], w)"
  using assms by (simp add: archive_POST_def)

lemma archive_GET_reads_no_credential:
  "archive_GET (r\<lparr>development := d, authorization := a\<rparr>) w = archive_GET r w"
  by (simp add: archive_GET_def)

text \<open>
  C6, at the failing input. Outside development mode and without an \<open>authorization\<close>
  header, the GET handler queries the store with the service-role client and answers
  200 with the archivable tasks of every owner; the POST handler answers 401 and leaves
  the state as it was.
\<close>

theorem C6_archive_GET_without_credential:
  "\<not> development anonymous_sweep
   \<and> authorization anonymous_sweep = None
   \<and> status_code (fst (archive_GET anonymous_sweep example_world)) = 200
   \<and> payload (fst (archive_GET anonymous_sweep example_world))
       = PArchivable 1 [\<lparr>s_id = ''t1'', s_title = ''Buy milk'', s_user_id = ''bob'',
                          s_updated_at = 1000\<rparr>] 408000000
   \<and> trace (snd (archive_GET anonymous_sweep example_world)) = [DbCall Select True]
   \<and> status_code (fst (archive_POST anonymous_sweep example_world)) = 401
   \<and> snd (archive_POST anonymous_sweep example_world) = example_world"
  by (simp add: anonymous_sweep_def example_world_def bobs_task_def alices_task_def
      archive_GET_def archive_POST_def has_bearer_def thirtyDaysAgo_def archivable_def
      summary_def json_response_def call_def Let_def)


subsection \<open>Single-task handlers and per-owner isolation\<close>

lemma world_say_call [simp]:
  "db (say l w) = db w" "redis (say l w) = redis w" "trace (say l w) = trace w"
  "db (call e w) = db w" "redis (call e w) = redis w" "trace (call e w) = trace w @ [e]"
  "out (call e w) = out w"
  by (simp_all add: say_def call_def)

lemma invalidateUserCache_keeps [simp]:
  "db (invalidateUserCache f u w) = db w" "trace (invalidateUserCache f u w) = trace w"
  by (simp_all add: invalidateUserCache_def invalidatePattern_def say_def Let_def)

lemma CacheService_get_keeps [simp]:
  "db (snd (CacheService_get f k w)) = db w" "trace (snd (CacheService_get f k w)) = trace w"
  "redis (snd (CacheService_get f k w)) = redis w"
  by (simp_all add: CacheService_get_def)

lemma CacheService_set_keeps [simp]:
  "db (CacheService_set f k v w) = db w" "trace (CacheService_set f k v w) = trace w"
  by (simp_all add: CacheService_set_def)

lemma GET_task_not_visible:
  assumes "auth_user r = Some a" "success (rate r)" "db_fault r = None"
    and "filter (own a tid) (db w) = []"
    and "cache_fault r \<or> map_of (redis w) (getUserTaskKey a tid) = None"
  shows "status_code (fst (GET_task tid r w)) = 404 \<and> db (snd (GET_task tid r w)) = db w"
  using assms
  by (auto simp: GET_task_def Let_def CacheService_get_def db_select_single_def single_def
      json_response_def split: prod.splits)

lemma PUT_task_not_visible:
  assumes "auth_user r = Some a" "success (rate r)" "db_fault r = None"
    and "filter (own a tid) (db w) = []"
    and "json_body r = Some b" "TaskUpdateSchema b = Inr u"
  shows "status_code (fst (PUT_task tid r w)) = 404 \<and> db (snd (PUT_task tid r w)) = db w"
proof -
  have none: "\<forall>t \<in> set (db w). \<not> own a tid t"
    using assms(4) by (simp add: filter_empty_conv)
  then have same: "map (\<lambda>t. if own a tid t then apply_update u (clock r) t else t) (db w) = db w"
    by (induction "db w") (auto intro: map_idI)
  show ?thesis
    using assms
    by (simp add: PUT_task_def Let_def db_update_single_def single_def same json_response_def)
qed

lemma DELETE_task_not_visible:
  assumes "auth_user r = Some a" "success (rate r)" "db_fault r = None"
    and "filter (own a tid) (db w) = []"
  shows "status_code (fst (DELETE_task tid r w)) = 200
         \<and> payload (fst (DELETE_task tid r w)) = PMessage ''Task deleted successfully''
         \<and> db (snd (DELETE_task tid r w)) = db w"
proof -
  have none: "\<forall>t \<in> set (db w). \<not> own a tid t"
    using assms(4) by (simp add: filter_empty_conv)
  then have same: "filter (\<lambda>t. \<not> own a tid t) (db w) = db w"
    by (intro filter_True) auto
  show ?thesis
    using assms
    by (simp add: DELETE_task_def Let_def db_delete_def same json_response_def)
qed

lemma others_untouched_update:
  "filter (\<lambda>t. user_id t \<noteq> a) (map (\<lambda>t. if own a tid t then apply_update u c t else t) xs)
     = filter (\<lambda>t. user_id t \<noteq> a) xs"
  by (induction xs) (auto simp: own_def apply_update_def)

lemma others_untouched_delete:
  "filter (\<lambda>t. \<not> own a tid t \<and> user_id t \<noteq> a) xs = filter (\<lambda>t. user_id t \<noteq> a) xs"
  by (intro filter_cong) (auto simp: own_def)

lemma GET_task_db: "db (snd (GET_task tid r w)) = db w"
  by (auto simp: GET_task_def Let_def CacheService_get_def
      split: option.splits prod.splits sum.splits if_splits)

lemma PUT_task_isolation:
  assumes "auth_user r = Some a"
  shows "filter (\<lambda>t. user_id t \<noteq> a) (db (snd (PUT_task tid r w))) = filter (\<lambda>t. user_id t \<noteq> a) (db w)"
  using assms
  by (auto simp: PUT_task_def Let_def db_update_single_def others_untouched_update
      split: option.splits prod.splits sum.splits)

lemma DELETE_task_isolation:
  assumes "auth_user r = Some a"
  shows "filter (\<lambda>t. user_id t \<noteq> a) (db (snd (DELETE_task tid r w))) = filter (\<lambda>t. user_id t \<noteq> a) (db w)"
  using assms
  by (auto simp: DELETE_task_def Let_def db_delete_def others_untouched_delete
      split: option.splits prod.splits)

text \<open>
  C1, at the failing input. Alice, authenticated and within her rate limit, sends
  \<open>DELETE /api/tasks/t1\<close>, where \<open>t1\<close> is a task of Bob's: the handler answers 200
  ``Task deleted successfully'' (as it does for an id that no task has), although no row
  was deleted. On the same id \<open>GET\<close> and \<open>PUT\<close> answer 404.
\<close>

theorem C1_DELETE_foreign_task_answers_200:
  "filter (own ''alice'' ''t1'') (db example_world) = []
   \<and> status_code (fst (DELETE_task ''t1'' alice_request example_world)) = 200
   \<and> payload (fst (DELETE_task ''t1'' alice_request example_world))
       = PMessage ''Task deleted successfully''
   \<and> db (snd (DELETE_task ''t1'' alice_request example_world)) = db example_world
   \<and> status_code (fst (DELETE_task ''no-such-id'' alice_request example_world)) = 200
   \<and> status_code (fst (GET_task ''t1'' alice_request example_world)) = 404
   \<and> status_code (fst (PUT_task ''t1''
        (alice_request\<lparr>json_body := Some (JObj [(''status'', JStr ''done'')])\<rparr>)
        example_world)) = 404"
proof -
  have none: "filter (own ''alice'' ''t1'') (db example_world) = []"
    and none': "filter (own ''alice'' ''no-such-id'') (db example_world) = []"
    by (simp_all add: example_world_def own_def bobs_task_def alices_task_def)
  have a: "auth_user alice_request = Some ''alice''" and s: "success (rate alice_request)"
    and f: "db_fault alice_request = None"
    by (simp_all add: alice_request_def allowed_def)
  have miss: "cache_fault alice_request \<or> map_of (redis example_world) (getUserTaskKey ''alice'' ''t1'') = None"
    by (simp add: example_world_def)
  let ?put = "alice_request\<lparr>json_body := Some (JObj [(''status'', JStr ''done'')])\<rparr>"
  have valid: "TaskUpdateSchema (JObj [(''status'', JStr ''done'')])
      = Inr \<lparr>tu_title = None, tu_description = None, tu_status = Some Done, tu_due_date = None\<rparr>"
    by (simp add: TaskUpdateSchema_def optional_field_def parse_status_def status_of_string_def
        parse_description_def parse_due_date_def strict_issues_def shape_keys_def)
  have put: "auth_user ?put = Some ''alice''" "success (rate ?put)" "db_fault ?put = None"
    "json_body ?put = Some (JObj [(''status'', JStr ''done'')])"
    by (simp_all add: alice_request_def allowed_def)
  show ?thesis
    using none DELETE_task_not_visible [OF a s f none] DELETE_task_not_visible [OF a s f none']
      GET_task_not_visible [OF a s f none miss]
      PUT_task_not_visible [OF put(1,2,3) none put(4) valid]
    by simp
qed


subsection \<open>Task creation: validation and ownership\<close>

lemma parse_title_Inr:
  "parse_title v = Inr t \<longleftrightarrow> v = Some (JStr t) \<and> 1 \<le> length t \<and> length t \<le> 120"
  by (auto simp: parse_title_def Suc_le_eq split: option.splits json.splits if_splits)

lemma parse_description_Inr:
  "parse_description v = Inr d \<longleftrightarrow>
     (v = None \<and> d = None) \<or> (\<exists>s. v = Some (JStr s) \<and> length s \<le> 2000 \<and> d = Some s)"
  by (auto simp: parse_description_def split: option.splits json.splits if_splits)

lemma parse_status_Inr:
  "parse_status v = Inr st \<longleftrightarrow> (\<exists>s. v = Some (JStr s) \<and> status_of_string s = Some st)"
  by (auto simp: parse_status_def split: option.splits json.splits)

lemma parse_due_date_Inr:
  "parse_due_date v = Inr dd \<longleftrightarrow>
     (v = None \<and> dd = None) \<or> (\<exists>s. v = Some (JStr s) \<and> dd = (if s = [] then None else Some s))"
  by (auto simp: parse_due_date_def split: option.splits json.splits)

lemma strict_issues_Nil: "strict_issues ks = [] \<longleftrightarrow> set ks \<subseteq> set shape_keys"
  by (auto simp: strict_issues_def Let_def filter_empty_conv)

lemma strict_issues_unknown:
  assumes "k \<in> set ks" "k \<notin> set shape_keys"
  shows "\<exists>i \<in> set (strict_issues ks). code i = unrecognized_keys \<and> k \<in> set (keys i)"
proof -
  let ?extra = "filter (\<lambda>k. k \<notin> set shape_keys) ks"
  have mem: "k \<in> set ?extra" using assms by simp
  then have "?extra \<noteq> []" by (metis empty_iff list.set(1))
  then have "strict_issues ks = [\<lparr>code = unrecognized_keys, path = [], keys = ?extra\<rparr>]"
    by (simp add: strict_issues_def Let_def)
  then show ?thesis using mem by simp
qed

lemma TaskCreateSchema_Inr:
  "TaskCreateSchema (JObj kvs) = Inr d \<longleftrightarrow>
     parse_title (map_of kvs ''title'') = Inr (tc_title d)
     \<and> parse_description (map_of kvs ''description'') = Inr (tc_description d)
     \<and> parse_status (map_of kvs ''status'') = Inr (tc_status d)
     \<and> parse_due_date (map_of kvs ''due_date'') = Inr (tc_due_date d)
     \<and> strict_issues (map fst kvs) = []"
  by (cases d) (auto simp: TaskCreateSchema_def Let_def split: sum.splits list.splits)

lemma TaskCreateSchema_Inl:
  "TaskCreateSchema (JObj kvs) = Inl iss \<Longrightarrow>
     iss = issues_of (parse_title (map_of kvs ''title''))
          @ issues_of (parse_description (map_of kvs ''description''))
          @ issues_of (parse_status (map_of kvs ''status''))
          @ issues_of (parse_due_date (map_of kvs ''due_date''))
          @ strict_issues (map fst kvs)"
  by (auto simp: TaskCreateSchema_def Let_def split: sum.splits list.splits)

lemma TaskCreateSchema_rejects_unknown:
  assumes "strict_issues (map fst kvs) \<noteq> []"
  shows "\<exists>iss. TaskCreateSchema (JObj kvs) = Inl iss"
proof (cases "TaskCreateSchema (JObj kvs)")
  case (Inl iss)
  then show ?thesis by simp
next
  case (Inr d)
  then show ?thesis using assms unfolding TaskCreateSchema_Inr by simp
qed

lemma POST_tasks_invalid:
  assumes "auth_user r = Some uid" "success (rate r)" "json_body r = Some b"
    and "TaskCreateSchema b = Inl iss"
  shows "fst (POST_tasks r w) = json_response 400 (PInvalid iss) []
         \<and> db (snd (POST_tasks r w)) = db w \<and> redis (snd (POST_tasks r w)) = redis w"
  using assms by (simp add: POST_tasks_def Let_def)

lemma POST_tasks_valid:
  assumes "auth_user r = Some uid" "success (rate r)" "json_body r = Some b"
    and "TaskCreateSchema b = Inr d" "db_fault r = None"
  shows "fst (POST_tasks r w)
           = json_response 201
               (PData \<lparr>task_id = fresh_id r, user_id = uid, title = tc_title d,
                       description = tc_description d, status = tc_status d,
                       due_date = tc_due_date d, created_at = clock r, updated_at = clock r\<rparr>)
               (rate_limit_headers (rate r))
         \<and> db (snd (POST_tasks r w))
           = db w @ [\<lparr>task_id = fresh_id r, user_id = uid, title = tc_title d,
                       description = tc_description d, status = tc_status d,
                       due_date = tc_due_date d, created_at = clock r, updated_at = clock r\<rparr>]"
  using assms by (simp add: POST_tasks_def Let_def db_insert_def taskData_def)

lemma POST_tasks_valid_status:
  assumes "auth_user r = Some uid" "success (rate r)" "json_body r = Some b"
    and "TaskCreateSchema b = Inr d"
  shows "status_code (fst (POST_tasks r w)) \<noteq> 400"
  using assms
  by (auto simp: POST_tasks_def Let_def json_response_def split: prod.splits sum.splits)


lemma TaskCreateSchema_Inl_cause:
  assumes "TaskCreateSchema (JObj kvs) = Inl iss"
  shows "(\<exists>a. parse_title (map_of kvs ''title'') = Inl a)
         \<or> (\<exists>a. parse_description (map_of kvs ''description'') = Inl a)
         \<or> (\<exists>a. parse_status (map_of kvs ''status'') = Inl a)
         \<or> (\<exists>a. parse_due_date (map_of kvs ''due_date'') = Inl a)
         \<or> strict_issues (map fst kvs) \<noteq> []"
  using assms by (auto simp: TaskCreateSchema_def Let_def split: sum.splits list.splits)

lemma POST_tasks_unauthenticated:
  assumes "auth_user r = None"
  shows "status_code (fst (POST_tasks r w)) = 401 \<and> db (snd (POST_tasks r w)) = db w"
  using assms by (simp add: POST_tasks_def Let_def json_response_def)

lemma POST_tasks_limited:
  assumes "auth_user r = Some uid" "\<not> success (rate r)"
  shows "status_code (fst (POST_tasks r w)) = 429 \<and> db (snd (POST_tasks r w)) = db w"
  using assms by (simp add: POST_tasks_def Let_def json_response_def too_many_requests_def)

lemma POST_tasks_db:
  "db (snd (POST_tasks r w)) = db w
   \<or> (\<exists>uid row. auth_user r = Some uid \<and> user_id row = uid
         \<and> db (snd (POST_tasks r w)) = db w @ [row])"
  by (auto simp: POST_tasks_def Let_def db_insert_def taskData_def
      split: option.splits sum.splits prod.splits if_splits)

text \<open>
  C7 (as amended). For every \<open>POST /api/tasks\<close> of an authenticated caller within the
  rate limit whose body is a JSON object: a title of length 0 is rejected with 400 and a
  \<open>too_small\<close> issue on \<open>title\<close>; a title longer than 120 (so one of length 121) is
  rejected with a \<open>too_big\<close> issue; a body with a key outside the schema is rejected
  with an \<open>unrecognized_keys\<close> issue; a body without \<open>status\<close> is rejected with an
  \<open>invalid_type\<close> issue on \<open>status\<close>. The body passes validation exactly when the
  title is a string of 1 to 120 characters, the status is one of the four names,
  \<open>description\<close> is absent or a string of at most 2000 characters, \<open>due_date\<close> is absent
  or a string, and there is no other key: \<open>description\<close> and \<open>due_date\<close> are optional,
  \<open>title\<close> and \<open>status\<close> are required.
\<close>

theorem C7_create_validation:
  assumes "auth_user r = Some uid" and "success (rate r)" and "json_body r = Some (JObj kvs)"
  shows "(\<forall>t. map_of kvs ''title'' = Some (JStr t) \<and> length t = 0 \<longrightarrow>
            status_code (fst (POST_tasks r w)) = 400
            \<and> (\<exists>iss. payload (fst (POST_tasks r w)) = PInvalid iss
                      \<and> issue too_small ''title'' \<in> set iss))
    \<and> (\<forall>t. map_of kvs ''title'' = Some (JStr t) \<and> 120 < length t \<longrightarrow>
            status_code (fst (POST_tasks r w)) = 400
            \<and> (\<exists>iss. payload (fst (POST_tasks r w)) = PInvalid iss
                      \<and> issue too_big ''title'' \<in> set iss))
    \<and> ((\<exists>k \<in> set (map fst kvs). k \<notin> set shape_keys) \<longrightarrow>
            status_code (fst (POST_tasks r w)) = 400
            \<and> (\<exists>iss. payload (fst (POST_tasks r w)) = PInvalid iss
                      \<and> (\<exists>i \<in> set iss. code i = unrecognized_keys)))
    \<and> (map_of kvs ''status'' = None \<longrightarrow>
            status_code (fst (POST_tasks r w)) = 400
            \<and> (\<exists>iss. payload (fst (POST_tasks r w)) = PInvalid iss
                      \<and> issue invalid_type ''status'' \<in> set iss))
    \<and> (status_code (fst (POST_tasks r w)) \<noteq> 400 \<longleftrightarrow>
          (\<exists>t. map_of kvs ''title'' = Some (JStr t) \<and> 1 \<le> length t \<and> length t \<le> 120)
          \<and> (\<exists>s st. map_of kvs ''status'' = Some (JStr s) \<and> status_of_string s = Some st)
          \<and> (map_of kvs ''description'' = None
               \<or> (\<exists>s. map_of kvs ''description'' = Some (JStr s) \<and> length s \<le> 2000))
          \<and> (map_of kvs ''due_date'' = None \<or> (\<exists>s. map_of kvs ''due_date'' = Some (JStr s)))
          \<and> set (map fst kvs) \<subseteq> set shape_keys)"
proof (cases "TaskCreateSchema (JObj kvs)")
  case (Inl iss)
  note post = POST_tasks_invalid [OF assms Inl, of w]
  have st: "status_code (fst (POST_tasks r w)) = 400"
    and pl: "payload (fst (POST_tasks r w)) = PInvalid iss"
    using post by (simp_all add: json_response_def)
  have iss: "iss = issues_of (parse_title (map_of kvs ''title''))
          @ issues_of (parse_description (map_of kvs ''description''))
          @ issues_of (parse_status (map_of kvs ''status''))
          @ issues_of (parse_due_date (map_of kvs ''due_date''))
          @ strict_issues (map fst kvs)"
    by (rule TaskCreateSchema_Inl [OF Inl])
  have b1: "\<forall>t. map_of kvs ''title'' = Some (JStr t) \<and> length t = 0 \<longrightarrow>
              issue too_small ''title'' \<in> set iss"
    unfolding iss by (auto simp: parse_title_def)
  have b2: "\<forall>t. map_of kvs ''title'' = Some (JStr t) \<and> 120 < length t \<longrightarrow>
              issue too_big ''title'' \<in> set iss"
    unfolding iss by (auto simp: parse_title_def)
  have b3: "(\<exists>k \<in> set (map fst kvs). k \<notin> set shape_keys) \<longrightarrow>
              (\<exists>i \<in> set iss. code i = unrecognized_keys)"
  proof
    assume "\<exists>k \<in> set (map fst kvs). k \<notin> set shape_keys"
    then obtain k where "k \<in> set (map fst kvs)" "k \<notin> set shape_keys" by blast
    from strict_issues_unknown [OF this]
    obtain i where "i \<in> set (strict_issues (map fst kvs))" "code i = unrecognized_keys"
      by blast
    then show "\<exists>i \<in> set iss. code i = unrecognized_keys"
      unfolding iss by auto
  qed
  have b4: "map_of kvs ''status'' = None \<longrightarrow> issue invalid_type ''status'' \<in> set iss"
    unfolding iss by (auto simp: parse_status_def)
  have b5: "\<not> ((\<exists>t. map_of kvs ''title'' = Some (JStr t) \<and> 1 \<le> length t \<and> length t \<le> 120)
          \<and> (\<exists>s st. map_of kvs ''status'' = Some (JStr s) \<and> status_of_string s = Some st)
          \<and> (map_of kvs ''description'' = None
               \<or> (\<exists>s. map_of kvs ''description'' = Some (JStr s) \<and> length s \<le> 2000))
          \<and> (map_of kvs ''due_date'' = None \<or> (\<exists>s. map_of kvs ''due_date'' = Some (JStr s)))
          \<and> set (map fst kvs) \<subseteq> set shape_keys)"
  proof
    assume ok: "(\<exists>t. map_of kvs ''title'' = Some (JStr t) \<and> 1 \<le> length t \<and> length t \<le> 120)
          \<and> (\<exists>s st. map_of kvs ''status'' = Some (JStr s) \<and> status_of_string s = Some st)
          \<and> (map_of kvs ''description'' = None
               \<or> (\<exists>s. map_of kvs ''description'' = Some (JStr s) \<and> length s \<le> 2000))
          \<and> (map_of kvs ''due_date'' = None \<or> (\<exists>s. map_of kvs ''due_date'' = Some (JStr s)))
          \<and> set (map fst kvs) \<subseteq> set shape_keys"
    then have "\<exists>x. parse_title (map_of kvs ''title'') = Inr x"
      unfolding parse_title_Inr by blast
    moreover from ok have "\<exists>x. parse_status (map_of kvs ''status'') = Inr x"
      unfolding parse_status_Inr by blast
    moreover from ok have "\<exists>x. parse_description (map_of kvs ''description'') = Inr x"
      unfolding parse_description_Inr by blast
    moreover from ok have "\<exists>x. parse_due_date (map_of kvs ''due_date'') = Inr x"
      unfolding parse_due_date_Inr by blast
    moreover from ok have "strict_issues (map fst kvs) = []"
      unfolding strict_issues_Nil by blast
    ultimately show False
      using TaskCreateSchema_Inl_cause [OF Inl] by auto
  qed
  from st pl b1 b2 b3 b4 b5 show ?thesis by blast
next
  case (Inr d)
  have st: "status_code (fst (POST_tasks r w)) \<noteq> 400"
    by (rule POST_tasks_valid_status [OF assms Inr])
  note ok = Inr [unfolded TaskCreateSchema_Inr parse_title_Inr parse_status_Inr
      parse_description_Inr parse_due_date_Inr strict_issues_Nil]
  have c1: "\<forall>t. \<not> (map_of kvs ''title'' = Some (JStr t) \<and> length t = 0)"
    using ok by auto
  have c2: "\<forall>t. \<not> (map_of kvs ''title'' = Some (JStr t) \<and> 120 < length t)"
    using ok by auto
  have c3: "\<not> (\<exists>k \<in> set (map fst kvs). k \<notin> set shape_keys)"
    using ok by auto
  have c4: "map_of kvs ''status'' \<noteq> None"
    using ok by auto
  have c5: "(\<exists>t. map_of kvs ''title'' = Some (JStr t) \<and> 1 \<le> length t \<and> length t \<le> 120)
          \<and> (\<exists>s st. map_of kvs ''status'' = Some (JStr s) \<and> status_of_string s = Some st)
          \<and> (map_of kvs ''description'' = None
               \<or> (\<exists>s. map_of kvs ''description'' = Some (JStr s) \<and> length s \<le> 2000))
          \<and> (map_of kvs ''due_date'' = None \<or> (\<exists>s. map_of kvs ''due_date'' = Some (JStr s)))
          \<and> set (map fst kvs) \<subseteq> set shape_keys"
    using ok by blast
  from st c1 c2 c3 c4 c5 show ?thesis by blast
qed


lemma create_request_fields:
  "auth_user (create_request kvs) = Some ''alice''" "success (rate (create_request kvs))"
  "json_body (create_request kvs) = Some (JObj kvs)" "db_fault (create_request kvs) = None"
  by (simp_all add: create_request_def alice_request_def allowed_def)

theorem C7_create_validation_witness:
  "status_code (fst (POST_tasks
       (create_request [(''title'', JStr []), (''status'', JStr ''todo'')]) example_world)) = 400
   \<and> status_code (fst (POST_tasks
       (create_request [(''title'', JStr (replicate 120 CHR ''a'')), (''status'', JStr ''todo'')])
       example_world)) \<noteq> 400
   \<and> status_code (fst (POST_tasks
       (create_request [(''title'', JStr (replicate 121 CHR ''a'')), (''status'', JStr ''todo'')])
       example_world)) = 400
   \<and> status_code (fst (POST_tasks
       (create_request [(''title'', JStr ''Buy milk''), (''status'', JStr ''todo''),
                        (''priority'', JNum 1)])
       example_world)) = 400
   \<and> status_code (fst (POST_tasks
       (create_request [(''title'', JStr ''Buy milk'')]) example_world)) = 400"
proof -
  note f = create_request_fields
  have empty: "map_of [(''title'', JStr []), (''status'', JStr ''todo'')] ''title'' = Some (JStr [])
               \<and> length ([] :: string) = 0"
    by simp
  have long: "map_of [(''title'', JStr (replicate 121 CHR ''a'')), (''status'', JStr ''todo'')] ''title''
                 = Some (JStr (replicate 121 CHR ''a''))
              \<and> 120 < length (replicate 121 CHR ''a'')"
    by simp
  have extra: "\<exists>k \<in> set (map fst [(''title'', JStr ''Buy milk''), (''status'', JStr ''todo''),
                        (''priority'', JNum 1)]). k \<notin> set shape_keys"
    by (simp add: shape_keys_def)
  have bare: "map_of [(''title'', JStr ''Buy milk'')] ''status'' = None"
    by simp
  have full: "(\<exists>t. map_of [(''title'', JStr (replicate 120 CHR ''a'')), (''status'', JStr ''todo'')] ''title''
                    = Some (JStr t) \<and> 1 \<le> length t \<and> length t \<le> 120)
     \<and> (\<exists>s st. map_of [(''title'', JStr (replicate 120 CHR ''a'')), (''status'', JStr ''todo'')] ''status''
                    = Some (JStr s) \<and> status_of_string s = Some st)
     \<and> (map_of [(''title'', JStr (replicate 120 CHR ''a'')), (''status'', JStr ''todo'')] ''description'' = None
          \<or> (\<exists>s. map_of [(''title'', JStr (replicate 120 CHR ''a'')), (''status'', JStr ''todo'')] ''description''
                    = Some (JStr s) \<and> length s \<le> 2000))
     \<and> (map_of [(''title'', JStr (replicate 120 CHR ''a'')), (''status'', JStr ''todo'')] ''due_date'' = None
          \<or> (\<exists>s. map_of [(''title'', JStr (replicate 120 CHR ''a'')), (''status'', JStr ''todo'')] ''due_date''
                    = Some (JStr s)))
     \<and> set (map fst [(''title'', JStr (replicate 120 CHR ''a'')), (''status'', JStr ''todo'')])
          \<subseteq> set shape_keys"
    by (simp add: status_of_string_def shape_keys_def)
  from C7_create_validation [OF f(1,2,3), of _ example_world] empty long extra bare full
  show ?thesis by blast
qed

text \<open>
  C7 as stated fails on ``every field other than title is optional'': a body consisting
  of only a valid title is rejected, because \<open>status\<close> is required.
\<close>

theorem C7_status_required_counterexample:
  "TaskCreateSchema (JObj [(''title'', JStr ''Buy milk'')]) = Inl [issue invalid_type ''status'']
   \<and> status_code (fst (POST_tasks (create_request [(''title'', JStr ''Buy milk'')]) example_world))
       = 400"
proof -
  have v: "TaskCreateSchema (JObj [(''title'', JStr ''Buy milk'')]) = Inl [issue invalid_type ''status'']"
    by (simp add: TaskCreateSchema_def parse_title_def parse_description_def parse_status_def
        parse_due_date_def strict_issues_def shape_keys_def)
  from POST_tasks_invalid [OF create_request_fields(1,2,3) v, of example_world] v
  show ?thesis by (simp add: json_response_def)
qed

text \<open>
  C3. Whatever the request, \<open>POST /api/tasks\<close> leaves the table as it was or appends
  one row whose \<open>user_id\<close> is the identity resolved from the session. When the request
  reaches the insert (authenticated, within the rate limit, body valid) and the store
  serves it, the answer is 201 and the row appended carries that identity and the
  validated fields: the owner sent passes the store's check against the caller. A body
  that has a \<open>user_id\<close> key never reaches the insert: the table is unchanged, and past
  authentication and rate limiting the answer is 400 with an \<open>unrecognized_keys\<close> issue
  naming \<open>user_id\<close>.
\<close>

theorem C3_owner_from_session:
  "(db (snd (POST_tasks r w)) = db w
      \<or> (\<exists>uid row. auth_user r = Some uid \<and> user_id row = uid
            \<and> db (snd (POST_tasks r w)) = db w @ [row]))
   \<and> (\<forall>uid b d. auth_user r = Some uid \<and> success (rate r) \<and> json_body r = Some b
          \<and> TaskCreateSchema b = Inr d \<and> db_fault r = None \<longrightarrow>
        status_code (fst (POST_tasks r w)) = 201
        \<and> db (snd (POST_tasks r w))
            = db w @ [\<lparr>task_id = fresh_id r, user_id = uid, title = tc_title d,
                        description = tc_description d, status = tc_status d,
                        due_date = tc_due_date d, created_at = clock r, updated_at = clock r\<rparr>])
   \<and> (\<forall>kvs. json_body r = Some (JObj kvs) \<and> ''user_id'' \<in> set (map fst kvs) \<longrightarrow>
        db (snd (POST_tasks r w)) = db w
        \<and> status_code (fst (POST_tasks r w)) \<in> {400, 401, 429}
        \<and> (\<forall>uid. auth_user r = Some uid \<and> success (rate r) \<longrightarrow>
              status_code (fst (POST_tasks r w)) = 400
              \<and> (\<exists>iss. payload (fst (POST_tasks r w)) = PInvalid iss
                    \<and> (\<exists>i \<in> set iss. code i = unrecognized_keys \<and> ''user_id'' \<in> set (keys i)))))"
proof -
  have a: "db (snd (POST_tasks r w)) = db w
      \<or> (\<exists>uid row. auth_user r = Some uid \<and> user_id row = uid
            \<and> db (snd (POST_tasks r w)) = db w @ [row])"
    by (rule POST_tasks_db)
  have b: "\<forall>uid b d. auth_user r = Some uid \<and> success (rate r) \<and> json_body r = Some b
          \<and> TaskCreateSchema b = Inr d \<and> db_fault r = None \<longrightarrow>
        status_code (fst (POST_tasks r w)) = 201
        \<and> db (snd (POST_tasks r w))
            = db w @ [\<lparr>task_id = fresh_id r, user_id = uid, title = tc_title d,
                        description = tc_description d, status = tc_status d,
                        due_date = tc_due_date d, created_at = clock r, updated_at = clock r\<rparr>]"
    using POST_tasks_valid [of r _ _ _ w] by (auto simp: json_response_def)
  have c: "\<forall>kvs. json_body r = Some (JObj kvs) \<and> ''user_id'' \<in> set (map fst kvs) \<longrightarrow>
        db (snd (POST_tasks r w)) = db w
        \<and> status_code (fst (POST_tasks r w)) \<in> {400, 401, 429}
        \<and> (\<forall>uid. auth_user r = Some uid \<and> success (rate r) \<longrightarrow>
              status_code (fst (POST_tasks r w)) = 400
              \<and> (\<exists>iss. payload (fst (POST_tasks r w)) = PInvalid iss
                    \<and> (\<exists>i \<in> set iss. code i = unrecognized_keys \<and> ''user_id'' \<in> set (keys i))))"
  proof (intro allI impI)
    fix kvs
    assume h: "json_body r = Some (JObj kvs) \<and> ''user_id'' \<in> set (map fst kvs)"
    have unknown: "''user_id'' \<notin> set shape_keys" by (simp add: shape_keys_def)
    from strict_issues_unknown [OF conjunct2 [OF h] unknown]
    obtain i where i: "i \<in> set (strict_issues (map fst kvs))" "code i = unrecognized_keys"
      "''user_id'' \<in> set (keys i)" by blast
    then have "strict_issues (map fst kvs) \<noteq> []" by auto
    then obtain iss where rej: "TaskCreateSchema (JObj kvs) = Inl iss"
      using TaskCreateSchema_rejects_unknown by blast
    have mem: "i \<in> set iss"
      using TaskCreateSchema_Inl [OF rej] i(1) by simp
    show "db (snd (POST_tasks r w)) = db w
        \<and> status_code (fst (POST_tasks r w)) \<in> {400, 401, 429}
        \<and> (\<forall>uid. auth_user r = Some uid \<and> success (rate r) \<longrightarrow>
              status_code (fst (POST_tasks r w)) = 400
              \<and> (\<exists>iss. payload (fst (POST_tasks r w)) = PInvalid iss
                    \<and> (\<exists>i \<in> set iss. code i = unrecognized_keys \<and> ''user_id'' \<in> set (keys i))))"
    proof (cases "auth_user r")
      case None
      then show ?thesis using POST_tasks_unauthenticated [OF None, of w] by simp
    next
      case (Some uid)
      show ?thesis
      proof (cases "success (rate r)")
        case False
        then show ?thesis using POST_tasks_limited [OF Some False, of w] Some by simp
      next
        case True
        from POST_tasks_invalid [OF Some True conjunct1 [OF h] rej, of w]
        have "status_code (fst (POST_tasks r w)) = 400"
          and "payload (fst (POST_tasks r w)) = PInvalid iss"
          and "db (snd (POST_tasks r w)) = db w"
          by (simp_all add: json_response_def)
        then show ?thesis using mem i(2,3) by auto
      qed
    qed
  qed
  from a b c show ?thesis by blast
qed

theorem C3_owner_from_session_witness:
  "status_code (fst (POST_tasks
       (create_request [(''title'', JStr ''Buy milk''), (''status'', JStr ''todo''),
                        (''user_id'', JStr ''bob'')]) example_world)) = 400
   \<and> db (snd (POST_tasks
       (create_request [(''title'', JStr ''Buy milk''), (''status'', JStr ''todo''),
                        (''user_id'', JStr ''bob'')]) example_world)) = db example_world
   \<and> db (snd (POST_tasks
       (create_request [(''title'', JStr ''Buy milk''), (''status'', JStr ''todo'')])
       example_world))
     = db example_world @ [\<lparr>task_id = ''t3'', user_id = ''alice'', title = ''Buy milk'',
          description = None, status = Todo, due_date = None, created_at = 3000000000,
          updated_at = 3000000000\<rparr>]"
proof -
  note f = create_request_fields
  have v: "TaskCreateSchema (JObj [(''title'', JStr ''Buy milk''), (''status'', JStr ''todo'')])
             = Inr \<lparr>tc_title = ''Buy milk'', tc_description = None, tc_status = Todo,
                    tc_due_date = None\<rparr>"
    by (simp add: TaskCreateSchema_def parse_title_def parse_description_def parse_status_def
        status_of_string_def parse_due_date_def strict_issues_def shape_keys_def)
  have k: "''user_id'' \<in> set (map fst [(''title'', JStr ''Buy milk''), (''status'', JStr ''todo''),
                        (''user_id'', JStr ''bob'')])"
    by simp
  have ids: "fresh_id (create_request kvs) = ''t3''" "clock (create_request kvs) = 3000000000" for kvs
    by (simp_all add: create_request_def alice_request_def)
  from C3_owner_from_session [of "create_request [(''title'', JStr ''Buy milk''),
          (''status'', JStr ''todo''), (''user_id'', JStr ''bob'')]" example_world]
       f k
  have one: "status_code (fst (POST_tasks
       (create_request [(''title'', JStr ''Buy milk''), (''status'', JStr ''todo''),
                        (''user_id'', JStr ''bob'')]) example_world)) = 400
   \<and> db (snd (POST_tasks
       (create_request [(''title'', JStr ''Buy milk''), (''status'', JStr ''todo''),
                        (''user_id'', JStr ''bob'')]) example_world)) = db example_world"
    by blast
  from C3_owner_from_session [of "create_request [(''title'', JStr ''Buy milk''),
          (''status'', JStr ''todo'')]" example_world] f v
  have two: "db (snd (POST_tasks
       (create_request [(''title'', JStr ''Buy milk''), (''status'', JStr ''todo'')])
       example_world))
     = db example_world @ [\<lparr>task_id = ''t3'', user_id = ''alice'', title = ''Buy milk'',
          description = None, status = Todo, due_date = None, created_at = 3000000000,
          updated_at = 3000000000\<rparr>]"
    unfolding ids by auto
  from one two show ?thesis by blast
qed


subsection \<open>Write-invalidate ordering\<close>

lemma redis_invalidateUserCache:
  "redis (invalidateUserCache f u w)
     = (if f then redis w else filter (\<lambda>(k, v). \<not> glob (''*:'' @ u @ ''*'') k) (redis w))"
proof (cases f)
  case True
  then show ?thesis by (simp add: invalidateUserCache_def invalidatePattern_fault)
next
  case False
  then show ?thesis
    unfolding invalidateUserCache_def using invalidatePattern_reachable by simp
qed

lemma POST_tasks_effects:
  "\<exists>evs. trace (snd (POST_tasks r w)) = trace w @ evs \<and>
     (if status_code (fst (POST_tasks r w)) \<in> {200, 201} then
        \<exists>uid b d. auth_user r = Some uid \<and> success (rate r) \<and> db_fault r = None
          \<and> json_body r = Some b \<and> TaskCreateSchema b = Inr d
          \<and> evs = [AuthGetUser,
                   RateLimitCheck (prefix writeLimiter) (createRateLimitKey (Some uid) (client_ip r)),
                   DbCall Insert True, CacheInvalidate uid]
          \<and> db (snd (POST_tasks r w))
              = db w @ [\<lparr>task_id = fresh_id r, user_id = uid, title = tc_title d,
                          description = tc_description d, status = tc_status d,
                          due_date = tc_due_date d, created_at = clock r, updated_at = clock r\<rparr>]
          \<and> redis (snd (POST_tasks r w))
              = (if cache_fault r then redis w
                 else filter (\<lambda>(k, v). \<not> glob (''*:'' @ uid @ ''*'') k) (redis w))
      else (\<forall>u. CacheInvalidate u \<notin> set evs) \<and> (\<forall>op. DbCall op True \<notin> set evs)
           \<and> redis (snd (POST_tasks r w)) = redis w \<and> db (snd (POST_tasks r w)) = db w)"
  by (auto simp: POST_tasks_def Let_def json_response_def too_many_requests_def
      redis_invalidateUserCache db_insert_def taskData_def
      split: option.splits sum.splits prod.splits if_splits)

lemma update_one_row:
  "filter (own uid tid) (map (\<lambda>t. if own uid tid t then apply_update u c t else t) xs)
     = map (apply_update u c) (filter (own uid tid) xs)"
  by (induction xs) (auto simp: own_def apply_update_def)

lemma update_no_row:
  assumes "filter (own uid tid) xs = []"
  shows "map (\<lambda>t. if own uid tid t then apply_update u c t else t) xs = xs"
proof -
  have "\<forall>t \<in> set xs. \<not> own uid tid t" using assms by (simp add: filter_empty_conv)
  then show ?thesis by (intro map_idI) simp
qed

lemma PUT_task_effects:
  "\<exists>evs. trace (snd (PUT_task tid r w)) = trace w @ evs \<and>
     (if status_code (fst (PUT_task tid r w)) \<in> {200, 201} then
        \<exists>uid b u t. auth_user r = Some uid \<and> success (rate r) \<and> db_fault r = None
          \<and> json_body r = Some b \<and> TaskUpdateSchema b = Inr u
          \<and> evs = [AuthGetUser,
                   RateLimitCheck (prefix writeLimiter) (createRateLimitKey (Some uid) (client_ip r)),
                   DbCall Update True, CacheInvalidate uid]
          \<and> filter (own uid tid) (db w) = [t]
          \<and> payload (fst (PUT_task tid r w)) = PData (apply_update u (clock r) t)
          \<and> db (snd (PUT_task tid r w))
              = map (\<lambda>t. if own uid tid t then apply_update u (clock r) t else t) (db w)
          \<and> redis (snd (PUT_task tid r w))
              = (if cache_fault r then redis w
                 else filter (\<lambda>(k, v). \<not> glob (''*:'' @ uid @ ''*'') k) (redis w))
      else (\<forall>u. CacheInvalidate u \<notin> set evs) \<and> (\<forall>op. DbCall op True \<notin> set evs)
           \<and> redis (snd (PUT_task tid r w)) = redis w
           \<and> (db (snd (PUT_task tid r w)) = db w
                \<or> (\<exists>uid. auth_user r = Some uid \<and> 1 < length (filter (own uid tid) (db w)))))"
proof (cases "auth_user r")
  case None
  then show ?thesis by (simp add: PUT_task_def Let_def json_response_def)
next
  case (Some uid)
  show ?thesis
  proof (cases "success (rate r)")
    case False
    then show ?thesis using Some
      by (simp add: PUT_task_def Let_def json_response_def too_many_requests_def)
  next
    case True
    show ?thesis
    proof (cases "json_body r")
      case None
      then show ?thesis using Some True
        by (simp add: PUT_task_def Let_def json_response_def)
    next
      case (Some b)
      note body = Some
      show ?thesis
      proof (cases "TaskUpdateSchema b")
        case (Inl iss)
        then show ?thesis using \<open>auth_user r = Some uid\<close> True body
          by (simp add: PUT_task_def Let_def json_response_def)
      next
        case (Inr u)
        show ?thesis
        proof (cases "db_fault r")
          case (Some m)
          then show ?thesis using \<open>auth_user r = Some uid\<close> True body Inr
            by (simp add: PUT_task_def Let_def json_response_def db_update_single_def)
        next
          case None
          let ?rows = "filter (own uid tid) (db w)"
          have upd: "filter (own uid tid)
                (map (\<lambda>t. if own uid tid t then apply_update u (clock r) t else t) (db w))
              = map (apply_update u (clock r)) ?rows"
            by (rule update_one_row)
          show ?thesis
          proof (cases ?rows)
            case Nil
            then show ?thesis using \<open>auth_user r = Some uid\<close> True body Inr None
              by (simp add: PUT_task_def Let_def json_response_def db_update_single_def
                  single_def upd update_no_row)
          next
            case (Cons t ts)
            show ?thesis
            proof (cases ts)
              case Nil
              then show ?thesis using \<open>auth_user r = Some uid\<close> True body Inr None Cons
                by (simp add: PUT_task_def Let_def json_response_def db_update_single_def
                    single_def upd redis_invalidateUserCache)
            next
              case (Cons t' ts')
              then show ?thesis using \<open>auth_user r = Some uid\<close> True body Inr None \<open>?rows = t # ts\<close>
                by (simp add: PUT_task_def Let_def json_response_def db_update_single_def
                    single_def upd)
            qed
          qed
        qed
      qed
    qed
  qed
qed

lemma DELETE_task_effects:
  "\<exists>evs. trace (snd (DELETE_task tid r w)) = trace w @ evs \<and>
     (if status_code (fst (DELETE_task tid r w)) \<in> {200, 201} then
        \<exists>uid. auth_user r = Some uid \<and> success (rate r) \<and> db_fault r = None
          \<and> evs = [AuthGetUser,
                   RateLimitCheck (prefix writeLimiter) (createRateLimitKey (Some uid) (client_ip r)),
                   DbCall Delete True, CacheInvalidate uid]
          \<and> db (snd (DELETE_task tid r w)) = filter (\<lambda>t. \<not> own uid tid t) (db w)
          \<and> redis (snd (DELETE_task tid r w))
              = (if cache_fault r then redis w
                 else filter (\<lambda>(k, v). \<not> glob (''*:'' @ uid @ ''*'') k) (redis w))
      else (\<forall>u. CacheInvalidate u \<notin> set evs) \<and> (\<forall>op. DbCall op True \<notin> set evs)
           \<and> redis (snd (DELETE_task tid r w)) = redis w \<and> db (snd (DELETE_task tid r w)) = db w)"
  by (auto simp: DELETE_task_def Let_def json_response_def too_many_requests_def
      redis_invalidateUserCache db_delete_def split: option.splits prod.splits if_splits)

lemma filtered_store_covers_owner:
  assumes "plain uid"
  shows "getUserTasksKey uid
           \<notin> fst ` set (filter (\<lambda>(k, v). \<not> glob (''*:'' @ uid @ ''*'') k) store)
    \<and> (\<forall>taskId. getUserTaskKey uid taskId
           \<notin> fst ` set (filter (\<lambda>(k, v). \<not> glob (''*:'' @ uid @ ''*'') k) store))
    \<and> (\<forall>k v. (k, v) \<in> set store \<and> \<not> contains ('':'' @ uid) k \<longrightarrow>
          (k, v) \<in> set (filter (\<lambda>(k, v). \<not> glob (''*:'' @ uid @ ''*'') k) store))"
proof -
  have g: "\<And>k. glob (''*:'' @ uid @ ''*'') k \<longleftrightarrow> contains ('':'' @ uid) k"
    by (rule glob_user_pattern [OF assms])
  show ?thesis
    unfolding g using own_keys_contain [of uid] by auto
qed


lemma cover_from_redis:
  assumes "store' = (if cf then store
                     else filter (\<lambda>(k, v). \<not> glob (''*:'' @ uid @ ''*'') k) store)"
  shows "\<not> cf \<and> plain uid \<longrightarrow>
           getUserTasksKey uid \<notin> fst ` set store'
           \<and> (\<forall>taskId. getUserTaskKey uid taskId \<notin> fst ` set store')
           \<and> (\<forall>k v. (k, v) \<in> set store \<and> \<not> contains ('':'' @ uid) k \<longrightarrow> (k, v) \<in> set store')"
proof
  assume a: "\<not> cf \<and> plain uid"
  then have eq: "store' = filter (\<lambda>(k, v). \<not> glob (''*:'' @ uid @ ''*'') k) store"
    using assms by simp
  show "getUserTasksKey uid \<notin> fst ` set store'
           \<and> (\<forall>taskId. getUserTaskKey uid taskId \<notin> fst ` set store')
           \<and> (\<forall>k v. (k, v) \<in> set store \<and> \<not> contains ('':'' @ uid) k \<longrightarrow> (k, v) \<in> set store')"
    unfolding eq using filtered_store_covers_owner [of uid store] a by blast
qed

text \<open>
  C4. For each mutating handler (\<open>POST /api/tasks\<close>, \<open>PUT\<close> and \<open>DELETE
  /api/tasks/{id}\<close>), on every request and every state. When the handler answers with
  success, the request was authenticated, within its rate limit and served by the
  store; the collaborator calls are, in order, authentication, the rate-limit check, the
  persistence write, which returned without error, and then the invalidation for the
  caller, last before the response; the table is the old one with the write applied (the
  row appended, the caller's row updated, the caller's row removed); and the cache is
  the old one without every key matching \<open>*:{owner}*\<close>, or the old one unchanged when
  the cache store fails. With the cache reachable, neither \<open>tasks:{owner}\<close> nor any
  \<open>task:{owner}:{taskId}\<close> is left, and entries whose key does not contain \<open>:{owner}\<close>
  are kept. When the handler answers otherwise, a failed write included, no invalidation
  was issued, no write succeeded and the cache is exactly as it was; the table is as it
  was too, except that an update matching several rows is applied before \<open>.single()\<close>
  reports them.
\<close>

theorem C4_invalidation_after_write:
  "(\<exists>evs. trace (snd (POST_tasks r w)) = trace w @ evs \<and>
     (if status_code (fst (POST_tasks r w)) \<in> {200, 201} then
        \<exists>uid b d. auth_user r = Some uid \<and> success (rate r) \<and> db_fault r = None
          \<and> json_body r = Some b \<and> TaskCreateSchema b = Inr d
          \<and> evs = [AuthGetUser,
                   RateLimitCheck (prefix writeLimiter) (createRateLimitKey (Some uid) (client_ip r)),
                   DbCall Insert True, CacheInvalidate uid]
          \<and> db (snd (POST_tasks r w))
              = db w @ [\<lparr>task_id = fresh_id r, user_id = uid, title = tc_title d,
                          description = tc_description d, status = tc_status d,
                          due_date = tc_due_date d, created_at = clock r, updated_at = clock r\<rparr>]
          \<and> redis (snd (POST_tasks r w))
              = (if cache_fault r then redis w
                 else filter (\<lambda>(k, v). \<not> glob (''*:'' @ uid @ ''*'') k) (redis w))
          \<and> (\<not> cache_fault r \<and> plain uid \<longrightarrow>
                getUserTasksKey uid \<notin> fst ` set (redis (snd (POST_tasks r w)))
                \<and> (\<forall>taskId. getUserTaskKey uid taskId
                      \<notin> fst ` set (redis (snd (POST_tasks r w))))
                \<and> (\<forall>k v. (k, v) \<in> set (redis w) \<and> \<not> contains ('':'' @ uid) k \<longrightarrow>
                      (k, v) \<in> set (redis (snd (POST_tasks r w)))))
      else (\<forall>u. CacheInvalidate u \<notin> set evs) \<and> (\<forall>op. DbCall op True \<notin> set evs)
           \<and> redis (snd (POST_tasks r w)) = redis w \<and> db (snd (POST_tasks r w)) = db w))
   \<and> (\<exists>evs. trace (snd (PUT_task tid r w)) = trace w @ evs \<and>
     (if status_code (fst (PUT_task tid r w)) \<in> {200, 201} then
        \<exists>uid b u t. auth_user r = Some uid \<and> success (rate r) \<and> db_fault r = None
          \<and> json_body r = Some b \<and> TaskUpdateSchema b = Inr u
          \<and> evs = [AuthGetUser,
                   RateLimitCheck (prefix writeLimiter) (createRateLimitKey (Some uid) (client_ip r)),
                   DbCall Update True, CacheInvalidate uid]
          \<and> filter (own uid tid) (db w) = [t]
          \<and> payload (fst (PUT_task tid r w)) = PData (apply_update u (clock r) t)
          \<and> db (snd (PUT_task tid r w))
              = map (\<lambda>t. if own uid tid t then apply_update u (clock r) t else t) (db w)
          \<and> redis (snd (PUT_task tid r w))
              = (if cache_fault r then redis w
                 else filter (\<lambda>(k, v). \<not> glob (''*:'' @ uid @ ''*'') k) (redis w))
          \<and> (\<not> cache_fault r \<and> plain uid \<longrightarrow>
                getUserTasksKey uid \<notin> fst ` set (redis (snd (PUT_task tid r w)))
                \<and> (\<forall>taskId. getUserTaskKey uid taskId
                      \<notin> fst ` set (redis (snd (PUT_task tid r w))))
                \<and> (\<forall>k v. (k, v) \<in> set (redis w) \<and> \<not> contains ('':'' @ uid) k \<longrightarrow>
                      (k, v) \<in> set (redis (snd (PUT_task tid r w)))))
      else (\<forall>u. CacheInvalidate u \<notin> set evs) \<and> (\<forall>op. DbCall op True \<notin> set evs)
           \<and> redis (snd (PUT_task tid r w)) = redis w
           \<and> (db (snd (PUT_task tid r w)) = db w
                \<or> (\<exists>uid. auth_user r = Some uid \<and> 1 < length (filter (own uid tid) (db w))))))
   \<and> (\<exists>evs. trace (snd (DELETE_task tid r w)) = trace w @ evs \<and>
     (if status_code (fst (DELETE_task tid r w)) \<in> {200, 201} then
        \<exists>uid. auth_user r = Some uid \<and> success (rate r) \<and> db_fault r = None
          \<and> evs = [AuthGetUser,
                   RateLimitCheck (prefix writeLimiter) (createRateLimitKey (Some uid) (client_ip r)),
                   DbCall Delete True, CacheInvalidate uid]
          \<and> db (snd (DELETE_task tid r w)) = filter (\<lambda>t. \<not> own uid tid t) (db w)
          \<and> redis (snd (DELETE_task tid r w))
              = (if cache_fault r then redis w
                 else filter (\<lambda>(k, v). \<not> glob (''*:'' @ uid @ ''*'') k) (redis w))
          \<and> (\<not> cache_fault r \<and> plain uid \<longrightarrow>
                getUserTasksKey uid \<notin> fst ` set (redis (snd (DELETE_task tid r w)))
                \<and> (\<forall>taskId. getUserTaskKey uid taskId
                      \<notin> fst ` set (redis (snd (DELETE_task tid r w))))
                \<and> (\<forall>k v. (k, v) \<in> set (redis w) \<and> \<not> contains ('':'' @ uid) k \<longrightarrow>
                      (k, v) \<in> set (redis (snd (DELETE_task tid r w)))))
      else (\<forall>u. CacheInvalidate u \<notin> set evs) \<and> (\<forall>op. DbCall op True \<notin> set evs)
           \<and> redis (snd (DELETE_task tid r w)) = redis w
           \<and> db (snd (DELETE_task tid r w)) = db w))"
proof (intro conjI)
  from POST_tasks_effects [of r w] obtain evs where
    tr: "trace (snd (POST_tasks r w)) = trace w @ evs"
    and rest: "if status_code (fst (POST_tasks r w)) \<in> {200, 201} then
        \<exists>uid b d. auth_user r = Some uid \<and> success (rate r) \<and> db_fault r = None
          \<and> json_body r = Some b \<and> TaskCreateSchema b = Inr d
          \<and> evs = [AuthGetUser,
                   RateLimitCheck (prefix writeLimiter) (createRateLimitKey (Some uid) (client_ip r)),
                   DbCall Insert True, CacheInvalidate uid]
          \<and> db (snd (POST_tasks r w))
              = db w @ [\<lparr>task_id = fresh_id r, user_id = uid, title = tc_title d,
                          description = tc_description d, status = tc_status d,
                          due_date = tc_due_date d, created_at = clock r, updated_at = clock r\<rparr>]
          \<and> redis (snd (POST_tasks r w))
              = (if cache_fault r then redis w
                 else filter (\<lambda>(k, v). \<not> glob (''*:'' @ uid @ ''*'') k) (redis w))
      else (\<forall>u. CacheInvalidate u \<notin> set evs) \<and> (\<forall>op. DbCall op True \<notin> set evs)
           \<and> redis (snd (POST_tasks r w)) = redis w \<and> db (snd (POST_tasks r w)) = db w"
    by blast
  show "\<exists>evs. trace (snd (POST_tasks r w)) = trace w @ evs \<and>
     (if status_code (fst (POST_tasks r w)) \<in> {200, 201} then
        \<exists>uid b d. auth_user r = Some uid \<and> success (rate r) \<and> db_fault r = None
          \<and> json_body r = Some b \<and> TaskCreateSchema b = Inr d
          \<and> evs = [AuthGetUser,
                   RateLimitCheck (prefix writeLimiter) (createRateLimitKey (Some uid) (client_ip r)),
                   DbCall Insert True, CacheInvalidate uid]
          \<and> db (snd (POST_tasks r w))
              = db w @ [\<lparr>task_id = fresh_id r, user_id = uid, title = tc_title d,
                          description = tc_description d, status = tc_status d,
                          due_date = tc_due_date d, created_at = clock r, updated_at = clock r\<rparr>]
          \<and> redis (snd (POST_tasks r w))
              = (if cache_fault r then redis w
                 else filter (\<lambda>(k, v). \<not> glob (''*:'' @ uid @ ''*'') k) (redis w))
          \<and> (\<not> cache_fault r \<and> plain uid \<longrightarrow>
                getUserTasksKey uid \<notin> fst ` set (redis (snd (POST_tasks r w)))
                \<and> (\<forall>taskId. getUserTaskKey uid taskId
                      \<notin> fst ` set (redis (snd (POST_tasks r w))))
                \<and> (\<forall>k v. (k, v) \<in> set (redis w) \<and> \<not> contains ('':'' @ uid) k \<longrightarrow>
                      (k, v) \<in> set (redis (snd (POST_tasks r w)))))
      else (\<forall>u. CacheInvalidate u \<notin> set evs) \<and> (\<forall>op. DbCall op True \<notin> set evs)
           \<and> redis (snd (POST_tasks r w)) = redis w \<and> db (snd (POST_tasks r w)) = db w)"
  proof (cases "status_code (fst (POST_tasks r w)) \<in> {200, 201}")
    case False
    then show ?thesis using tr rest by (intro exI [of _ evs]) simp
  next
    case True
    with rest obtain uid b d where u: "auth_user r = Some uid" "success (rate r)"
      "db_fault r = None" "json_body r = Some b" "TaskCreateSchema b = Inr d"
      "evs = [AuthGetUser,
              RateLimitCheck (prefix writeLimiter) (createRateLimitKey (Some uid) (client_ip r)),
              DbCall Insert True, CacheInvalidate uid]"
      "db (snd (POST_tasks r w))
         = db w @ [\<lparr>task_id = fresh_id r, user_id = uid, title = tc_title d,
                     description = tc_description d, status = tc_status d,
                     due_date = tc_due_date d, created_at = clock r, updated_at = clock r\<rparr>]"
      and rd: "redis (snd (POST_tasks r w))
         = (if cache_fault r then redis w
            else filter (\<lambda>(k, v). \<not> glob (''*:'' @ uid @ ''*'') k) (redis w))"
      by (simp only: if_True) blast
    note cover = cover_from_redis [OF rd]
    show ?thesis
      using tr True u rd cover
      by (intro exI [of _ evs]) (simp only: if_True, blast)
  qed
next
  from PUT_task_effects [of tid r w] obtain evs where
    tr: "trace (snd (PUT_task tid r w)) = trace w @ evs"
    and rest: "if status_code (fst (PUT_task tid r w)) \<in> {200, 201} then
        \<exists>uid b u t. auth_user r = Some uid \<and> success (rate r) \<and> db_fault r = None
          \<and> json_body r = Some b \<and> TaskUpdateSchema b = Inr u
          \<and> evs = [AuthGetUser,
                   RateLimitCheck (prefix writeLimiter) (createRateLimitKey (Some uid) (client_ip r)),
                   DbCall Update True, CacheInvalidate uid]
          \<and> filter (own uid tid) (db w) = [t]
          \<and> payload (fst (PUT_task tid r w)) = PData (apply_update u (clock r) t)
          \<and> db (snd (PUT_task tid r w))
              = map (\<lambda>t. if own uid tid t then apply_update u (clock r) t else t) (db w)
          \<and> redis (snd (PUT_task tid r w))
              = (if cache_fault r then redis w
                 else filter (\<lambda>(k, v). \<not> glob (''*:'' @ uid @ ''*'') k) (redis w))
      else (\<forall>u. CacheInvalidate u \<notin> set evs) \<and> (\<forall>op. DbCall op True \<notin> set evs)
           \<and> redis (snd (PUT_task tid r w)) = redis w
           \<and> (db (snd (PUT_task tid r w)) = db w
                \<or> (\<exists>uid. auth_user r = Some uid \<and> 1 < length (filter (own uid tid) (db w))))"
    by blast
  show "\<exists>evs. trace (snd (PUT_task tid r w)) = trace w @ evs \<and>
     (if status_code (fst (PUT_task tid r w)) \<in> {200, 201} then
        \<exists>uid b u t. auth_user r = Some uid \<and> success (rate r) \<and> db_fault r = None
          \<and> json_body r = Some b \<and> TaskUpdateSchema b = Inr u
          \<and> evs = [AuthGetUser,
                   RateLimitCheck (prefix writeLimiter) (createRateLimitKey (Some uid) (client_ip r)),
                   DbCall Update True, CacheInvalidate uid]
          \<and> filter (own uid tid) (db w) = [t]
          \<and> payload (fst (PUT_task tid r w)) = PData (apply_update u (clock r) t)
          \<and> db (snd (PUT_task tid r w))
              = map (\<lambda>t. if own uid tid t then apply_update u (clock r) t else t) (db w)
          \<and> redis (snd (PUT_task tid r w))
              = (if cache_fault r then redis w
                 else filter (\<lambda>(k, v). \<not> glob (''*:'' @ uid @ ''*'') k) (redis w))
          \<and> (\<not> cache_fault r \<and> plain uid \<longrightarrow>
                getUserTasksKey uid \<notin> fst ` set (redis (snd (PUT_task tid r w)))
                \<and> (\<forall>taskId. getUserTaskKey uid taskId
                      \<notin> fst ` set (redis (snd (PUT_task tid r w))))
                \<and> (\<forall>k v. (k, v) \<in> set (redis w) \<and> \<not> contains ('':'' @ uid) k \<longrightarrow>
                      (k, v) \<in> set (redis (snd (PUT_task tid r w)))))
      else (\<forall>u. CacheInvalidate u \<notin> set evs) \<and> (\<forall>op. DbCall op True \<notin> set evs)
           \<and> redis (snd (PUT_task tid r w)) = redis w
           \<and> (db (snd (PUT_task tid r w)) = db w
                \<or> (\<exists>uid. auth_user r = Some uid \<and> 1 < length (filter (own uid tid) (db w)))))"
  proof (cases "status_code (fst (PUT_task tid r w)) \<in> {200, 201}")
    case False
    then show ?thesis using tr rest by (intro exI [of _ evs]) simp
  next
    case True
    with rest obtain uid b u t where u: "auth_user r = Some uid" "success (rate r)"
      "db_fault r = None" "json_body r = Some b" "TaskUpdateSchema b = Inr u"
      "evs = [AuthGetUser,
              RateLimitCheck (prefix writeLimiter) (createRateLimitKey (Some uid) (client_ip r)),
              DbCall Update True, CacheInvalidate uid]"
      "filter (own uid tid) (db w) = [t]"
      "payload (fst (PUT_task tid r w)) = PData (apply_update u (clock r) t)"
      "db (snd (PUT_task tid r w))
         = map (\<lambda>t. if own uid tid t then apply_update u (clock r) t else t) (db w)"
      and rd: "redis (snd (PUT_task tid r w))
         = (if cache_fault r then redis w
            else filter (\<lambda>(k, v). \<not> glob (''*:'' @ uid @ ''*'') k) (redis w))"
      by (simp only: if_True) blast
    note cover = cover_from_redis [OF rd]
    show ?thesis
      using tr True u rd cover
      by (intro exI [of _ evs]) (simp only: if_True, blast)
  qed
next
  from DELETE_task_effects [of tid r w] obtain evs where
    tr: "trace (snd (DELETE_task tid r w)) = trace w @ evs"
    and rest: "if status_code (fst (DELETE_task tid r w)) \<in> {200, 201} then
        \<exists>uid. auth_user r = Some uid \<and> success (rate r) \<and> db_fault r = None
          \<and> evs = [AuthGetUser,
                   RateLimitCheck (prefix writeLimiter) (createRateLimitKey (Some uid) (client_ip r)),
                   DbCall Delete True, CacheInvalidate uid]
          \<and> db (snd (DELETE_task tid r w)) = filter (\<lambda>t. \<not> own uid tid t) (db w)
          \<and> redis (snd (DELETE_task tid r w))
              = (if cache_fault r then redis w
                 else filter (\<lambda>(k, v). \<not> glob (''*:'' @ uid @ ''*'') k) (redis w))
      else (\<forall>u. CacheInvalidate u \<notin> set evs) \<and> (\<forall>op. DbCall op True \<notin> set evs)
           \<and> redis (snd (DELETE_task tid r w)) = redis w
           \<and> db (snd (DELETE_task tid r w)) = db w"
    by blast
  show "\<exists>evs. trace (snd (DELETE_task tid r w)) = trace w @ evs \<and>
     (if status_code (fst (DELETE_task tid r w)) \<in> {200, 201} then
        \<exists>uid. auth_user r = Some uid \<and> success (rate r) \<and> db_fault r = None
          \<and> evs = [AuthGetUser,
                   RateLimitCheck (prefix writeLimiter) (createRateLimitKey (Some uid) (client_ip r)),
                   DbCall Delete True, CacheInvalidate uid]
          \<and> db (snd (DELETE_task tid r w)) = filter (\<lambda>t. \<not> own uid tid t) (db w)
          \<and> redis (snd (DELETE_task tid r w))
              = (if cache_fault r then redis w
                 else filter (\<lambda>(k, v). \<not> glob (''*:'' @ uid @ ''*'') k) (redis w))
          \<and> (\<not> cache_fault r \<and> plain uid \<longrightarrow>
                getUserTasksKey uid \<notin> fst ` set (redis (snd (DELETE_task tid r w)))
                \<and> (\<forall>taskId. getUserTaskKey uid taskId
                      \<notin> fst ` set (redis (snd (DELETE_task tid r w))))
                \<and> (\<forall>k v. (k, v) \<in> set (redis w) \<and> \<not> contains ('':'' @ uid) k \<longrightarrow>
                      (k, v) \<in> set (redis (snd (DELETE_task tid r w)))))
      else (\<forall>u. CacheInvalidate u \<notin> set evs) \<and> (\<forall>op. DbCall op True \<notin> set evs)
           \<and> redis (snd (DELETE_task tid r w)) = redis w
           \<and> db (snd (DELETE_task tid r w)) = db w)"
  proof (cases "status_code (fst (DELETE_task tid r w)) \<in> {200, 201}")
    case False
    then show ?thesis using tr rest by (intro exI [of _ evs]) simp
  next
    case True
    with rest obtain uid where u: "auth_user r = Some uid" "success (rate r)"
      "db_fault r = None"
      "evs = [AuthGetUser,
              RateLimitCheck (prefix writeLimiter) (createRateLimitKey (Some uid) (client_ip r)),
              DbCall Delete True, CacheInvalidate uid]"
      "db (snd (DELETE_task tid r w)) = filter (\<lambda>t. \<not> own uid tid t) (db w)"
      and rd: "redis (snd (DELETE_task tid r w))
         = (if cache_fault r then redis w
            else filter (\<lambda>(k, v). \<not> glob (''*:'' @ uid @ ''*'') k) (redis w))"
      by (simp only: if_True) blast
    note cover = cover_from_redis [OF rd]
    show ?thesis
      using tr True u rd cover
      by (intro exI [of _ evs]) (simp only: if_True, blast)
  qed
qed


theorem C4_invalidation_after_write_witness:
  "status_code (fst (PUT_task ''t2'' update_request cached_world)) = 200
   \<and> trace (snd (PUT_task ''t2'' update_request cached_world))
       = [AuthGetUser, RateLimitCheck ''rl:write'' ''alice:10.0.0.1'',
          DbCall Update True, CacheInvalidate ''alice'']
   \<and> db (snd (PUT_task ''t2'' update_request cached_world))
       = [bobs_task, alices_task\<lparr>status := Done, updated_at := 3000000000\<rparr>]
   \<and> redis (snd (PUT_task ''t2'' update_request cached_world))
       = [(''tasks:bob'', CTasks [bobs_task])]
   \<and> status_code (fst (PUT_task ''t2'' failing_update_request cached_world)) = 500
   \<and> redis (snd (PUT_task ''t2'' failing_update_request cached_world)) = redis cached_world
   \<and> db (snd (PUT_task ''t2'' failing_update_request cached_world)) = db cached_world"
proof -
  have v: "TaskUpdateSchema (JObj [(''status'', JStr ''done'')])
      = Inr \<lparr>tu_title = None, tu_description = None, tu_status = Some Done, tu_due_date = None\<rparr>"
    by (simp add: TaskUpdateSchema_def optional_field_def parse_status_def status_of_string_def
        parse_description_def parse_due_date_def strict_issues_def shape_keys_def)
  have st: "status_code (fst (PUT_task ''t2'' update_request cached_world)) = 200"
    by (simp add: PUT_task_def update_request_def alice_request_def allowed_def v Let_def
        db_update_single_def single_def cached_world_def example_world_def own_def
        bobs_task_def alices_task_def apply_update_def json_response_def)
  have st': "status_code (fst (PUT_task ''t2'' failing_update_request cached_world)) = 500"
    by (simp add: PUT_task_def failing_update_request_def update_request_def alice_request_def
        allowed_def v Let_def db_update_single_def json_response_def)
  have facts: "auth_user update_request = Some ''alice''" "\<not> cache_fault update_request"
    "trace cached_world = []" "client_ip update_request = ''10.0.0.1''"
    "prefix writeLimiter = ''rl:write''" "clock update_request = 3000000000"
    "json_body update_request = Some (JObj [(''status'', JStr ''done'')])"
    by (simp_all add: update_request_def alice_request_def cached_world_def
        example_world_def client_ip_def writeLimiter_def)
  have key: "createRateLimitKey (Some ''alice'') ''10.0.0.1'' = ''alice:10.0.0.1''"
    by (simp add: createRateLimitKey_def)
  have kept: "filter (\<lambda>(k, v). \<not> glob (''*:'' @ ''alice'' @ ''*'') k) (redis cached_world)
                = [(''tasks:bob'', CTasks [bobs_task])]"
    by (simp add: cached_world_def example_world_def)
  have rows: "db cached_world = [bobs_task, alices_task]"
    "own ''alice'' ''t2'' alices_task" "\<not> own ''alice'' ''t2'' bobs_task"
    by (simp_all add: cached_world_def example_world_def own_def alices_task_def bobs_task_def)
  have one: "\<not> 1 < length (filter (own ''alice'' ''t2'') (db cached_world))"
    by (simp add: rows)
  have who: "auth_user failing_update_request = Some ''alice''"
    by (simp add: failing_update_request_def update_request_def alice_request_def)
  note put = C4_invalidation_after_write [where r = update_request and w = cached_world
      and tid = "''t2''", THEN conjunct2, THEN conjunct1]
  have ok: "status_code (fst (PUT_task ''t2'' update_request cached_world)) \<in> {200, 201}"
    using st by simp
  from put obtain evs where
    tr: "trace (snd (PUT_task ''t2'' update_request cached_world)) = trace cached_world @ evs"
    and body: "\<exists>uid b u t. auth_user update_request = Some uid
          \<and> json_body update_request = Some b \<and> TaskUpdateSchema b = Inr u
          \<and> evs = [AuthGetUser,
                   RateLimitCheck (prefix writeLimiter)
                     (createRateLimitKey (Some uid) (client_ip update_request)),
                   DbCall Update True, CacheInvalidate uid]
          \<and> db (snd (PUT_task ''t2'' update_request cached_world))
              = map (\<lambda>t. if own uid ''t2'' t then apply_update u (clock update_request) t else t)
                  (db cached_world)
          \<and> redis (snd (PUT_task ''t2'' update_request cached_world))
              = (if cache_fault update_request then redis cached_world
                 else filter (\<lambda>(k, v). \<not> glob (''*:'' @ uid @ ''*'') k) (redis cached_world))"
    using ok by (simp only: if_True) blast
  then obtain uid b u where u: "auth_user update_request = Some uid"
    "json_body update_request = Some b" "TaskUpdateSchema b = Inr u"
    "evs = [AuthGetUser,
            RateLimitCheck (prefix writeLimiter)
              (createRateLimitKey (Some uid) (client_ip update_request)),
            DbCall Update True, CacheInvalidate uid]"
    "db (snd (PUT_task ''t2'' update_request cached_world))
       = map (\<lambda>t. if own uid ''t2'' t then apply_update u (clock update_request) t else t)
           (db cached_world)"
    "redis (snd (PUT_task ''t2'' update_request cached_world))
       = (if cache_fault update_request then redis cached_world
          else filter (\<lambda>(k, v). \<not> glob (''*:'' @ uid @ ''*'') k) (redis cached_world))"
    by blast
  have uid: "uid = ''alice''" using u(1) facts(1) by simp
  have b: "b = JObj [(''status'', JStr ''done'')]" using u(2) facts(7) by simp
  have upd: "u = \<lparr>tu_title = None, tu_description = None, tu_status = Some Done,
                  tu_due_date = None\<rparr>"
    using u(3) v unfolding b by simp
  have w1: "trace (snd (PUT_task ''t2'' update_request cached_world))
       = [AuthGetUser, RateLimitCheck ''rl:write'' ''alice:10.0.0.1'',
          DbCall Update True, CacheInvalidate ''alice'']"
    unfolding tr u(4) uid facts(3,4,5) key by simp
  have w2: "db (snd (PUT_task ''t2'' update_request cached_world))
       = [bobs_task, alices_task\<lparr>status := Done, updated_at := 3000000000\<rparr>]"
    unfolding u(5) uid upd facts(6) rows(1)
    by (simp add: own_def apply_update_def alices_task_def bobs_task_def)
  have w3: "redis (snd (PUT_task ''t2'' update_request cached_world))
       = [(''tasks:bob'', CTasks [bobs_task])]"
    unfolding u(6) uid using facts(2) kept by simp
  note bad = C4_invalidation_after_write [where r = failing_update_request and w = cached_world
      and tid = "''t2''", THEN conjunct2, THEN conjunct1]
  have no: "status_code (fst (PUT_task ''t2'' failing_update_request cached_world)) \<notin> {200, 201}"
    using st' by simp
  from bad obtain evs' where
    else_branch: "redis (snd (PUT_task ''t2'' failing_update_request cached_world)) = redis cached_world
       \<and> (db (snd (PUT_task ''t2'' failing_update_request cached_world)) = db cached_world
            \<or> (\<exists>uid. auth_user failing_update_request = Some uid
                  \<and> 1 < length (filter (own uid ''t2'') (db cached_world))))"
    using no by (simp only: if_False) blast
  have w4: "redis (snd (PUT_task ''t2'' failing_update_request cached_world)) = redis cached_world"
    using else_branch by blast
  have w5: "db (snd (PUT_task ''t2'' failing_update_request cached_world)) = db cached_world"
    using else_branch who one by auto
  from st w1 w2 w3 st' w4 w5 show ?thesis by blast
qed

end
